theory Spec2Isabelle
  imports Main "HOL-Library.AList"
begin

section \<open>JavaScript values\<close>

text \<open>
  The client of \<^verbatim>\<open>src/server/utils/pumpchat.ts\<close> handles whatever \<^verbatim>\<open>JSON.parse\<close>
  returns, so the model works on untyped JavaScript values. Numbers are integers here
  (the code only tests them for truthiness and passes them on). \<^verbatim>\<open>JSON.parse\<close> itself
  is a built-in of the platform: every handler takes it as the parameter \<open>parse\<close>,
  where \<open>None\<close> stands for the \<^verbatim>\<open>SyntaxError\<close> it throws on malformed text.
  An object is the list of its properties, looked up from the front. A string is a
  list of characters; the code cuts strings only behind leading ASCII digits, where
  the unit of length makes no difference.
\<close>

datatype jsval =
    JUndefined
  | JNull
  | JBool bool
  | JNum int
  | JStr string
  | JArr "jsval list"
  | JObj "(string \<times> jsval) list"

text \<open>
  What can be thrown: the two errors of the language that the handlers can meet, and
  the \<^verbatim>\<open>Error\<close> object (represented by its message) that an \<^verbatim>\<open>EventEmitter\<close> throws
  when \<^verbatim>\<open>error\<close> is emitted and nobody listens.
\<close>

datatype error = SyntaxError | TypeError | Thrown string

type_synonym json_parse = "string \<Rightarrow> jsval option"

fun truthy :: "jsval \<Rightarrow> bool" where
  "truthy JUndefined = False"
| "truthy JNull = False"
| "truthy (JBool b) = b"
| "truthy (JNum n) = (n \<noteq> 0)"
| "truthy (JStr s) = (s \<noteq> [])"
| "truthy (JArr xs) = True"
| "truthy (JObj kvs) = True"

fun isArray :: "jsval \<Rightarrow> bool" where
  "isArray (JArr xs) = True"
| "isArray v = False"

fun isString :: "jsval \<Rightarrow> bool" where
  "isString (JStr s) = True"
| "isString v = False"

text \<open>
  \<open>getProp v k\<close> is \<^verbatim>\<open>v.k\<close> for the property names the client reads
  (\<^verbatim>\<open>pingInterval\<close>, \<^verbatim>\<open>reason\<close>, \<^verbatim>\<open>messages\<close>, \<^verbatim>\<open>error\<close>), none of which a prototype
  defines: reading a property of \<^verbatim>\<open>null\<close> or \<^verbatim>\<open>undefined\<close> throws, an object yields
  its own property, every other value yields \<^verbatim>\<open>undefined\<close>.
\<close>

fun getProp :: "jsval \<Rightarrow> string \<Rightarrow> error + jsval" where
  "getProp JUndefined k = Inl TypeError"
| "getProp JNull k = Inl TypeError"
| "getProp (JObj kvs) k = (case map_of kvs k of Some v \<Rightarrow> Inr v | None \<Rightarrow> Inr JUndefined)"
| "getProp v k = Inr JUndefined"

text \<open>\<open>elem0 v\<close> is \<^verbatim>\<open>v[0]\<close>.\<close>

fun elem0 :: "jsval \<Rightarrow> error + jsval" where
  "elem0 JUndefined = Inl TypeError"
| "elem0 JNull = Inl TypeError"
| "elem0 (JArr []) = Inr JUndefined"
| "elem0 (JArr (x # xs)) = Inr x"
| "elem0 (JStr []) = Inr JUndefined"
| "elem0 (JStr (ch # s)) = Inr (JStr [ch])"
| "elem0 (JObj kvs) = (case map_of kvs ''0'' of Some v \<Rightarrow> Inr v | None \<Rightarrow> Inr JUndefined)"
| "elem0 v = Inr JUndefined"

text \<open>
  \<open>destructure2 v\<close> is the array pattern \<^verbatim>\<open>const [eventName, payload] = v\<close>: arrays and
  strings are iterable, everything else throws.
\<close>

fun nth_or_undefined :: "jsval list \<Rightarrow> nat \<Rightarrow> jsval" where
  "nth_or_undefined xs i = (if i < length xs then xs ! i else JUndefined)"

fun destructure2 :: "jsval \<Rightarrow> error + (jsval \<times> jsval)" where
  "destructure2 (JArr xs) = Inr (nth_or_undefined xs 0, nth_or_undefined xs 1)"
| "destructure2 (JStr s) =
     Inr (nth_or_undefined (map (\<lambda>ch. JStr [ch]) s) 0, nth_or_undefined (map (\<lambda>ch. JStr [ch]) s) 1)"
| "destructure2 v = Inl TypeError"

text \<open>\<^verbatim>\<open>Array.prototype.slice(start)\<close> with its clamping of the start index.\<close>

definition slice_from :: "int \<Rightarrow> 'a list \<Rightarrow> 'a list" where
  "slice_from start xs =
     drop (nat (if start < 0 then max (int (length xs) + start) 0
                else min start (int (length xs)))) xs"

section \<open>Strings: digits, number formatting\<close>

definition is_digit :: "char \<Rightarrow> bool" where
  "is_digit ch = (ch \<in> set ''0123456789'')"

text \<open>\<^verbatim>\<open>data.match(/^(\d+)/)?.[1]\<close>: the leading run of digits, absent when empty.\<close>

definition leading_digits :: "string \<Rightarrow> string option" where
  "leading_digits data =
     (let ds = takeWhile is_digit data in if ds = [] then None else Some ds)"

text \<open>The value of a digit is its place among the ten digits.\<close>

definition digit_val :: "char \<Rightarrow> nat" where
  "digit_val ch = length (takeWhile (\<lambda>d. d \<noteq> ch) ''0123456789'')"

text \<open>\<^verbatim>\<open>parseInt\<close> on a string of digits; the empty string gives \<^verbatim>\<open>NaN\<close> (\<open>None\<close>).\<close>

definition parseInt :: "string \<Rightarrow> nat option" where
  "parseInt s = (if s = [] then None else Some (foldl (\<lambda>n ch. 10 * n + digit_val ch) 0 s))"

fun show_nat :: "nat \<Rightarrow> string" where
  "show_nat n = (if n < 10 then [''0123456789'' ! n]
                 else show_nat (n div 10) @ [''0123456789'' ! (n mod 10)])"

definition show_int :: "int \<Rightarrow> string" where
  "show_int i = (if i < 0 then ''-'' @ show_nat (nat (- i)) else show_nat (nat i))"

section \<open>The client object and its surroundings\<close>

record pending =
  event :: string
  timestamp :: int

datatype callback = Ping | CleanupStaleAcks | Reconnect

datatype timeout = Timeout callback jsval

datatype connection = WebSocketConnection

text \<open>
  Everything the client does to the outside is appended to a trace: events emitted to
  listeners, frames written to the transport, lines logged with \<^verbatim>\<open>console.error\<close>,
  timers set and cleared, the transport being closed or opened. What the listeners
  do is not part of the model: emitting an event records it and returns. Which
  events have a listener is part of the client, though, since the class extends
  \<^verbatim>\<open>EventEmitter\<close>, whose \<^verbatim>\<open>emit('error', e)\<close> throws \<open>e\<close> when no listener for
  \<^verbatim>\<open>error\<close> is registered. When a timer fires, a frame arrives or the transport closes is up to the
  surroundings; each such moment is an \<open>input\<close> below, with the value of
  \<^verbatim>\<open>Date.now()\<close> at that moment.
\<close>

datatype effect =
    Emit string "jsval list"
  | SendUTF string
  | ConsoleError string
  | SetInterval callback jsval
  | ClearInterval timeout
  | SetTimeout callback int
  | ConnectionClose
  | WebSocketConnect

type_synonym addr = nat

text \<open>
  The fields of \<^verbatim>\<open>PumpChatClient\<close>. \<^verbatim>\<open>messageHistory\<close> is a reference to an array
  object that \<^verbatim>\<open>push\<close> and \<^verbatim>\<open>shift\<close> change in place, so it is an address into a
  store \<open>heap\<close>; \<open>nextAddr\<close> is the next unused address. \<^verbatim>\<open>pendingAcks\<close> is a
  JavaScript \<^verbatim>\<open>Map\<close>: entries in insertion order, one per key. \<open>listeners\<close> is what
  the inherited \<^verbatim>\<open>EventEmitter\<close> keeps: the names of the events for which \<^verbatim>\<open>on\<close> has
  registered a listener.
\<close>

record client =
  connection :: "connection option"
  roomId :: string
  username :: string
  messageHistory :: addr
  messageHistoryLimit :: int
  isConnected :: bool
  pingInterval :: "timeout option"
  reconnectAttempts :: nat
  maxReconnectAttempts :: nat
  ackId :: nat
  pendingAcks :: "(nat \<times> pending) list"
  listeners :: "string list"
  heap :: "addr \<Rightarrow> jsval"
  nextAddr :: addr
  trace :: "effect list"

record options =
  opt_roomId :: string
  opt_username :: "string option"
  opt_messageHistoryLimit :: "int option"

text \<open>The constructor: \<^verbatim>\<open>options.username || 'anonymous'\<close>, \<^verbatim>\<open>options.messageHistoryLimit || 100\<close>.\<close>

definition PumpChatClient :: "options \<Rightarrow> client" where
  "PumpChatClient opts =
     \<lparr> connection = None,
       roomId = opt_roomId opts,
       username = (case opt_username opts of
                     Some u \<Rightarrow> if u \<noteq> [] then u else ''anonymous''
                   | None \<Rightarrow> ''anonymous''),
       messageHistory = 0,
       messageHistoryLimit = (case opt_messageHistoryLimit opts of
                     Some n \<Rightarrow> if n \<noteq> 0 then n else 100
                   | None \<Rightarrow> 100),
       isConnected = False,
       pingInterval = None,
       reconnectAttempts = 0,
       maxReconnectAttempts = 5,
       ackId = 0,
       pendingAcks = [],
       listeners = [],
       heap = (\<lambda>a. JUndefined)(0 := JArr []),
       nextAddr = 1,
       trace = [] \<rparr>"

definition effect :: "effect \<Rightarrow> client \<Rightarrow> client" where
  "effect e c = c\<lparr>trace := trace c @ [e]\<rparr>"

definition emit :: "string \<Rightarrow> jsval list \<Rightarrow> client \<Rightarrow> client" where
  "emit ev args c = effect (Emit ev args) c"

definition console_error :: "string \<Rightarrow> client \<Rightarrow> client" where
  "console_error s c = effect (ConsoleError s) c"

text \<open>
  \<^verbatim>\<open>this.emit('error', error)\<close>: with a listener it is an event like the others, without
  one the error is thrown and nothing is recorded.
\<close>

definition emit_error :: "string \<Rightarrow> client \<Rightarrow> error + client" where
  "emit_error err c =
     (if ''error'' \<in> set (listeners c) then Inr (emit ''error'' [JStr err] c)
      else Inl (Thrown err))"

text \<open>The inherited \<^verbatim>\<open>on(event, listener)\<close>, also called \<^verbatim>\<open>addListener\<close>.\<close>

definition addListener :: "string \<Rightarrow> client \<Rightarrow> client" where
  "addListener ev c = c\<lparr>listeners := listeners c @ [ev]\<rparr>"

section \<open>Private methods\<close>

definition send :: "string \<Rightarrow> client \<Rightarrow> client" where
  "send data c =
     (if connection c \<noteq> None \<and> isConnected c then effect (SendUTF data) c
      else console_error ''Cannot send data: not connected'' c)"

definition stopPing :: "client \<Rightarrow> client" where
  "stopPing c =
     (case pingInterval c of
        Some t \<Rightarrow> (effect (ClearInterval t) c)\<lparr>pingInterval := None\<rparr>
      | None \<Rightarrow> c)"

definition startPing :: "jsval \<Rightarrow> client \<Rightarrow> client" where
  "startPing interval c =
     (effect (SetInterval Ping interval) (stopPing c))\<lparr>pingInterval := Some (Timeout Ping interval)\<rparr>"

definition sendPong :: "client \<Rightarrow> client" where
  "sendPong c = send ''3'' c"

definition getNextAckId :: "client \<Rightarrow> nat \<times> client" where
  "getNextAckId c = (ackId c, c\<lparr>ackId := (ackId c + 1) mod 10\<rparr>)"

definition connect :: "client \<Rightarrow> client" where
  "connect c = effect WebSocketConnect c"

definition attemptReconnect :: "client \<Rightarrow> client" where
  "attemptReconnect c =
     (if reconnectAttempts c < maxReconnectAttempts c then
        let c1 = c\<lparr>reconnectAttempts := reconnectAttempts c + 1\<rparr>;
            c2 = emit ''tryReconnect'' [] c1;
            delay = min (1000 * 2 ^ reconnectAttempts c2) 30000;
            c3 = console_error ''[INFO] Attempting to reconnect'' c2
        in effect (SetTimeout Reconnect delay) c3
      else emit ''maxReconnectAttemptsReached'' [] c)"

definition track :: "nat \<Rightarrow> string \<Rightarrow> int \<Rightarrow> client \<Rightarrow> client" where
  "track ack ev now c =
     c\<lparr>pendingAcks := AList.update ack \<lparr>event = ev, timestamp = now\<rparr> (pendingAcks c)\<rparr>"

definition requestMessageHistory :: "int \<Rightarrow> client \<Rightarrow> client" where
  \<open>requestMessageHistory now c =
     (let (historyAckId, c1) = getNextAckId c;
          c2 = track historyAckId ''getMessageHistory'' now c1
      in send (''42'' @ show_nat historyAckId @ ''["getMessageHistory",{"roomId":"'' @ roomId c2
               @ ''","before":null,"limit":'' @ show_int (messageHistoryLimit c2) @ ''}]'') c2)\<close>

definition handleConnect :: "json_parse \<Rightarrow> int \<Rightarrow> string \<Rightarrow> client \<Rightarrow> error + client" where
  \<open>handleConnect parse now data c =
     (case parse (drop 1 data) of
        None \<Rightarrow> Inl SyntaxError
      | Some connectData \<Rightarrow>
          (case getProp connectData ''pingInterval'' of
             Inl e \<Rightarrow> Inl e
           | Inr interval \<Rightarrow>
               Inr (send (''40{"origin":"https://pump.fun","timestamp":'' @ show_int now
                          @ '',"token":null}'')
                      (if truthy interval then startPing interval c else c))))\<close>

definition handleConnectedAck :: "int \<Rightarrow> client \<Rightarrow> client" where
  \<open>handleConnectedAck now c =
     (let (joinAckId, c1) = getNextAckId c;
          c2 = track joinAckId ''joinRoom'' now c1
      in send (''42'' @ show_nat joinAckId @ ''["joinRoom",{"roomId":"'' @ roomId c2
               @ ''","username":"'' @ username c2 @ ''"}]'') c2)\<close>

definition disconnect_reason :: "json_parse \<Rightarrow> string \<Rightarrow> jsval" where
  "disconnect_reason parse data =
     (let dflt = JStr ''Server initiated disconnect''; disconnectData = drop 2 data in
      if disconnectData = [] then dflt
      else (case parse disconnectData of
              None \<Rightarrow> dflt
            | Some parsed \<Rightarrow>
                if truthy parsed \<and> isString parsed then parsed
                else if truthy parsed then
                  (case getProp parsed ''reason'' of
                     Inl e \<Rightarrow> dflt
                   | Inr r \<Rightarrow> if truthy r then r else dflt)
                else dflt))"

definition handleDisconnect :: "json_parse \<Rightarrow> string \<Rightarrow> client \<Rightarrow> client" where
  "handleDisconnect parse data c =
     (let reason = disconnect_reason parse data;
          c1 = c\<lparr>isConnected := False, connection := None\<rparr>;
          c2 = stopPing c1;
          c3 = emit ''disconnected'' [JObj [(''reason'', reason)]] c2
      in attemptReconnect c3)"

text \<open>
  \<^verbatim>\<open>handleNewMessage\<close>: \<^verbatim>\<open>push\<close>, then one \<^verbatim>\<open>shift\<close> when the array is longer than the
  limit. \<^verbatim>\<open>push\<close> is not a function when the buffer is not an array.
\<close>

definition handleNewMessage :: "jsval \<Rightarrow> client \<Rightarrow> error + client" where
  "handleNewMessage message c =
     (case heap c (messageHistory c) of
        JArr xs \<Rightarrow>
          (let pushed = xs @ [message];
               kept = (if int (length pushed) > messageHistoryLimit c then tl pushed else pushed);
               c1 = c\<lparr>heap := (heap c)(messageHistory c := JArr kept)\<rparr>
           in Inr (emit ''message'' [message] c1))
      | _ \<Rightarrow> Inl TypeError)"

definition handleEvent :: "json_parse \<Rightarrow> int \<Rightarrow> string \<Rightarrow> client \<Rightarrow> client" where
  "handleEvent parse now data c =
     (case parse (drop 2 data) of
        None \<Rightarrow> console_error ''Error parsing event:'' c
      | Some eventData \<Rightarrow>
          (case destructure2 eventData of
             Inl e \<Rightarrow> console_error ''Error parsing event:'' c
           | Inr (eventName, payload) \<Rightarrow>
               if eventName = JStr ''setCookie'' then requestMessageHistory now c
               else if eventName = JStr ''newMessage'' then
                 (case handleNewMessage payload c of
                    Inl e \<Rightarrow> console_error ''Error parsing event:'' c
                  | Inr c' \<Rightarrow> c')
               else if eventName = JStr ''userLeft'' then emit ''userLeft'' [payload] c
               else c))"

text \<open>
  \<^verbatim>\<open>this.messageHistory = v; this.emit('messageHistory', this.messageHistory)\<close>: the field
  now refers to the object that was just parsed, which is new in the store.
\<close>

definition assignMessageHistory :: "jsval \<Rightarrow> client \<Rightarrow> client" where
  "assignMessageHistory v c =
     emit ''messageHistory'' [v]
       (c\<lparr>heap := (heap c)(nextAddr c := v),
          messageHistory := nextAddr c,
          nextAddr := nextAddr c + 1\<rparr>)"

definition handleEventWithAck :: "json_parse \<Rightarrow> string \<Rightarrow> client \<Rightarrow> client" where
  "handleEventWithAck parse data c =
     (case parse (drop 2 data) of
        None \<Rightarrow> console_error ''Error parsing acknowledgment:'' c
      | Some ackData \<Rightarrow>
          (case elem0 ackData of
             Inl e \<Rightarrow> console_error ''Error parsing acknowledgment:'' c
           | Inr eventData \<Rightarrow>
               (case (if truthy eventData then getProp eventData ''messages'' else Inr eventData) of
                  Inl e \<Rightarrow> console_error ''Error parsing acknowledgment:'' c
                | Inr messages \<Rightarrow>
                    if truthy messages then assignMessageHistory messages c
                    else if isArray eventData then assignMessageHistory eventData c
                    else (case ackData of
                            JArr xs \<Rightarrow> if length xs > 0 then assignMessageHistory eventData c else c
                          | _ \<Rightarrow> c))))"

definition handleNumberedAck :: "json_parse \<Rightarrow> int \<Rightarrow> string \<Rightarrow> client \<Rightarrow> client" where
  "handleNumberedAck parse now data c =
     (case leading_digits data of
        None \<Rightarrow> c
      | Some messageType \<Rightarrow>
          (let pendingAck = (case parseInt (drop 2 messageType) of
                               None \<Rightarrow> None
                             | Some ack \<Rightarrow> map_of (pendingAcks c) ack);
               c1 = (case parseInt (drop 2 messageType) of
                       None \<Rightarrow> c
                     | Some ack \<Rightarrow>
                         if pendingAck \<noteq> None
                         then c\<lparr>pendingAcks := AList.delete ack (pendingAcks c)\<rparr> else c)
           in case parse (drop 3 data) of
                None \<Rightarrow> console_error ''Error parsing numbered acknowledgment:'' c1
              | Some ackData \<Rightarrow>
                  if map_option event pendingAck = Some ''joinRoom'' then requestMessageHistory now c1
                  else if map_option event pendingAck = Some ''getMessageHistory'' then
                    (case elem0 ackData of
                       Inl e \<Rightarrow> console_error ''Error parsing numbered acknowledgment:'' c1
                     | Inr messages \<Rightarrow>
                         if isArray messages then assignMessageHistory messages c1 else c1)
                  else if map_option event pendingAck = Some ''sendMessage'' then
                    (case elem0 ackData of
                       Inl e \<Rightarrow> console_error ''Error parsing numbered acknowledgment:'' c1
                     | Inr first \<Rightarrow>
                         (case (if truthy first then getProp first ''error'' else Inr first) of
                            Inl e \<Rightarrow> console_error ''Error parsing numbered acknowledgment:'' c1
                          | Inr err \<Rightarrow>
                              if truthy err
                              then emit ''serverError'' [first] (console_error ''Server error:'' c1)
                              else c1))
                  else c1))"

text \<open>
  \<^verbatim>\<open>handleMessage\<close> dispatches on the leading digits. Only \<^verbatim>\<open>handleConnect\<close> has no
  \<^verbatim>\<open>try\<close> block, so only it can pass an exception on (\<open>Inl\<close>).
\<close>

definition handleMessage :: "json_parse \<Rightarrow> int \<Rightarrow> string \<Rightarrow> client \<Rightarrow> error + client" where
  "handleMessage parse now data c =
     (case leading_digits data of
        None \<Rightarrow> Inr c
      | Some messageType \<Rightarrow>
          if messageType = ''0'' then handleConnect parse now data c
          else if messageType = ''40'' then Inr (handleConnectedAck now c)
          else if messageType = ''41'' then Inr (handleDisconnect parse data c)
          else if messageType = ''42'' then Inr (handleEvent parse now data c)
          else if messageType = ''43'' then Inr (handleEventWithAck parse data c)
          else if messageType \<in> set [''430'', ''431'', ''432'', ''433'', ''434'',
                                        ''435'', ''436'', ''437'', ''438'', ''439'']
            then Inr (handleNumberedAck parse now data c)
          else if messageType = ''2'' then Inr (sendPong c)
          else if messageType = ''3'' then Inr c
          else Inr c)"

text \<open>
  \<^verbatim>\<open>cleanupStaleAcks\<close>: the loop over the entries of the map, deleting the stale ones
  from it.
\<close>

fun sweep :: "int \<Rightarrow> (nat \<times> pending) list \<Rightarrow> (nat \<times> pending) list \<Rightarrow> (nat \<times> pending) list" where
  "sweep now [] m = m"
| "sweep now ((ack, p) # entries) m =
     sweep now entries (if now - timestamp p > 30000 then AList.delete ack m else m)"

definition cleanupStaleAcks :: "int \<Rightarrow> client \<Rightarrow> client" where
  "cleanupStaleAcks now c = c\<lparr>pendingAcks := sweep now (pendingAcks c) (pendingAcks c)\<rparr>"

section \<open>Transport callbacks\<close>

text \<open>
  The listeners registered in \<^verbatim>\<open>setupClientHandlers\<close> and \<^verbatim>\<open>setupConnectionHandlers\<close>.
  An \<^verbatim>\<open>Error\<close> object is represented by its message.
\<close>

definition setupConnectionHandlers :: "client \<Rightarrow> client" where
  "setupConnectionHandlers c = effect (SetInterval CleanupStaleAcks (JNum 10000)) c"

definition on_connect :: "client \<Rightarrow> client" where
  "on_connect c =
     (let c1 = c\<lparr>connection := Some WebSocketConnection, isConnected := True,
                 reconnectAttempts := 0\<rparr>;
          c2 = console_error ''[INIT] WebSocket Client Connected'' c1;
          c3 = emit ''connected'' [] c2
      in setupConnectionHandlers c3)"

text \<open>
  The two callbacks that emit \<^verbatim>\<open>error\<close> give the exception that escaped, if any, and
  the client as it was left: when the emit throws, the line is logged already and
  \<^verbatim>\<open>attemptReconnect\<close> is not reached.
\<close>

definition on_connectFailed :: "string \<Rightarrow> client \<Rightarrow> error option \<times> client" where
  "on_connectFailed err c =
     (let c1 = console_error ''Connection Failed:'' c in
      case emit_error err c1 of
        Inl e \<Rightarrow> (Some e, c1)
      | Inr c2 \<Rightarrow> (None, attemptReconnect c2))"

definition on_error :: "string \<Rightarrow> client \<Rightarrow> error option \<times> client" where
  "on_error err c =
     (let c1 = console_error ''Connection Error:'' c in
      case emit_error err c1 of
        Inl e \<Rightarrow> (Some e, c1)
      | Inr c2 \<Rightarrow> (None, c2))"

definition on_close :: "client \<Rightarrow> client" where
  "on_close c =
     (let c1 = console_error ''[INFO] WebSocket Connection Closed'' c;
          c2 = c1\<lparr>isConnected := False, connection := None\<rparr>;
          c3 = emit ''disconnected'' [] c2;
          c4 = stopPing c3
      in attemptReconnect c4)"

datatype ws_message = Utf8 string | Binary

definition on_message :: "json_parse \<Rightarrow> int \<Rightarrow> ws_message \<Rightarrow> client \<Rightarrow> error + client" where
  "on_message parse now message c =
     (case message of
        Utf8 utf8Data \<Rightarrow> if utf8Data \<noteq> [] then handleMessage parse now utf8Data c else Inr c
      | Binary \<Rightarrow> Inr c)"

section \<open>Public methods\<close>

definition disconnect :: "client \<Rightarrow> client" where
  "disconnect c =
     (let c1 = stopPing c in
      case connection c1 of
        Some conn \<Rightarrow> effect ConnectionClose c1
      | None \<Rightarrow> c1)"

text \<open>
  \<^verbatim>\<open>getMessages\<close> returns a new array: \<^verbatim>\<open>slice\<close> and the spread both allocate. The result
  is the address of that array together with the client, whose store now holds it.
  A string has \<^verbatim>\<open>slice\<close> and is iterable too; on any other value both throw.
\<close>

definition alloc :: "jsval \<Rightarrow> client \<Rightarrow> addr \<times> client" where
  "alloc v c = (nextAddr c, c\<lparr>heap := (heap c)(nextAddr c := v), nextAddr := nextAddr c + 1\<rparr>)"

definition getMessages :: "int option \<Rightarrow> client \<Rightarrow> error + (addr \<times> client)" where
  "getMessages limit c =
     (if limit \<noteq> None \<and> limit \<noteq> Some 0 then
        (case heap c (messageHistory c) of
           JArr xs \<Rightarrow> Inr (alloc (JArr (slice_from (- the limit) xs)) c)
         | JStr s \<Rightarrow> Inr (alloc (JStr (slice_from (- the limit) s)) c)
         | _ \<Rightarrow> Inl TypeError)
      else
        (case heap c (messageHistory c) of
           JArr xs \<Rightarrow> Inr (alloc (JArr xs) c)
         | JStr s \<Rightarrow> Inr (alloc (JArr (map (\<lambda>ch. JStr [ch]) s)) c)
         | _ \<Rightarrow> Inl TypeError))"

definition sendMessage :: "int \<Rightarrow> string \<Rightarrow> client \<Rightarrow> client" where
  \<open>sendMessage now message c =
     (if isConnected c then
        (let (sendAckId, c1) = getNextAckId c;
             c2 = track sendAckId ''sendMessage'' now c1
         in send (''42'' @ show_nat sendAckId @ ''["sendMessage",{"roomId":"'' @ roomId c2
                  @ ''","message":"'' @ message @ ''","username":"'' @ username c2 @ ''"}]'') c2)
      else console_error ''Cannot send message: not connected'' c)\<close>

definition isActive :: "client \<Rightarrow> bool" where
  "isActive c = isConnected c"

section \<open>Everything that can happen to a client\<close>

text \<open>
  One input is one callback run to completion: a transport event, a timer firing, or a
  call of a public method (of the inherited ones only \<^verbatim>\<open>on\<close>). \<open>step\<close> gives the exception that escaped, if any, and the
  client as the callback left it.
\<close>

datatype input =
    OnConnect
  | OnConnectFailed string
  | OnError string
  | OnClose
  | OnMessage ws_message
  | PingTimer
  | CleanupTimer
  | ReconnectTimer
  | CallConnect
  | CallDisconnect
  | CallSendMessage string
  | CallGetMessages "int option"
  | CallOn string

fun step :: "json_parse \<Rightarrow> client \<Rightarrow> (int \<times> input) \<Rightarrow> error option \<times> client" where
  "step parse c (now, OnConnect) = (None, on_connect c)"
| "step parse c (now, OnConnectFailed err) = on_connectFailed err c"
| "step parse c (now, OnError err) = on_error err c"
| "step parse c (now, OnClose) = (None, on_close c)"
| "step parse c (now, OnMessage m) =
     (case on_message parse now m c of Inl e \<Rightarrow> (Some e, c) | Inr c' \<Rightarrow> (None, c'))"
| "step parse c (now, PingTimer) = (None, send ''2'' c)"
| "step parse c (now, CleanupTimer) = (None, cleanupStaleAcks now c)"
| "step parse c (now, ReconnectTimer) = (None, connect c)"
| "step parse c (now, CallConnect) = (None, connect c)"
| "step parse c (now, CallDisconnect) = (None, disconnect c)"
| "step parse c (now, CallSendMessage text) = (None, sendMessage now text c)"
| "step parse c (now, CallGetMessages limit) =
     (case getMessages limit c of Inl e \<Rightarrow> (Some e, c) | Inr (r, c') \<Rightarrow> (None, c'))"
| "step parse c (now, CallOn ev) = (None, addListener ev c)"

fun run :: "json_parse \<Rightarrow> client \<Rightarrow> (int \<times> input) list \<Rightarrow> client" where
  "run parse c [] = c"
| "run parse c (i # inputs) = run parse (snd (step parse c i)) inputs"

text \<open>The exceptions that escaped while the inputs ran, in order.\<close>

fun raised :: "json_parse \<Rightarrow> client \<Rightarrow> (int \<times> input) list \<Rightarrow> error list" where
  "raised parse c [] = []"
| "raised parse c (i # inputs) =
     (case fst (step parse c i) of Some e \<Rightarrow> [e] | None \<Rightarrow> [])
       @ raised parse (snd (step parse c i)) inputs"

text \<open>How often \<^verbatim>\<open>isActive()\<close> turned from false to true while the inputs ran.\<close>

fun activations :: "json_parse \<Rightarrow> client \<Rightarrow> (int \<times> input) list \<Rightarrow> nat" where
  "activations parse c [] = 0"
| "activations parse c (i # inputs) =
     (if \<not> isActive c \<and> isActive (snd (step parse c i)) then 1 else 0)
       + activations parse (snd (step parse c i)) inputs"

section \<open>Observations\<close>

text \<open>Reading a trace: the delays of the scheduled reconnects, the arguments of the
  events emitted under a name, the frames written to the transport.\<close>

definition reconnect_delays :: "effect list \<Rightarrow> int list" where
  "reconnect_delays tr =
     concat (map (\<lambda>e. case e of SetTimeout Reconnect d \<Rightarrow> [d] | _ \<Rightarrow> []) tr)"

definition emitted :: "string \<Rightarrow> effect list \<Rightarrow> jsval list list" where
  "emitted ev tr =
     concat (map (\<lambda>e. case e of Emit ev' args \<Rightarrow> if ev' = ev then [args] else []
                            | _ \<Rightarrow> []) tr)"

definition events :: "effect list \<Rightarrow> string list" where
  "events tr = concat (map (\<lambda>e. case e of Emit ev args \<Rightarrow> [ev] | _ \<Rightarrow> []) tr)"

definition sent :: "effect list \<Rightarrow> string list" where
  "sent tr = concat (map (\<lambda>e. case e of SendUTF data \<Rightarrow> [data] | _ \<Rightarrow> []) tr)"

text \<open>The live buffer, and the array a call of \<^verbatim>\<open>getMessages\<close> hands out.\<close>

definition buffer :: "client \<Rightarrow> jsval" where
  "buffer c = heap c (messageHistory c)"

definition getMessages_value :: "int option \<Rightarrow> client \<Rightarrow> error + jsval" where
  "getMessages_value limit c =
     (case getMessages limit c of Inl e \<Rightarrow> Inl e | Inr (r, c') \<Rightarrow> Inr (heap c' r))"


text \<open>A frame's payload that does not go on with a digit leaves the prefix as the
  frame's type.\<close>

definition no_leading_digit :: "string \<Rightarrow> bool" where
  "no_leading_digit p = (case p of [] \<Rightarrow> True | ch # s \<Rightarrow> \<not> is_digit ch)"

text \<open>The store is well formed when the buffer's address is allocated.\<close>

definition wf_store :: "client \<Rightarrow> bool" where
  "wf_store c = (messageHistory c < nextAddr c)"

section \<open>Examples\<close>

text \<open>
  A client with room for two messages, and the values of \<^verbatim>\<open>JSON.parse\<close> on the
  payloads of the example frames. Of the texts outside the table only \<^verbatim>\<open>{\<close> is used,
  which is malformed.
\<close>

definition example_client :: client where
  "example_client =
     PumpChatClient \<lparr>opt_roomId = ''room1'', opt_username = None,
                     opt_messageHistoryLimit = Some 2\<rparr>"

definition msg :: "string \<Rightarrow> jsval" where
  "msg i = JObj [(''id'', JStr i)]"

definition example_parse :: json_parse where
  \<open>example_parse s =
     (if s = ''{"pingInterval":1000}'' then Some (JObj [(''pingInterval'', JNum 1000)])
      else if s = ''[{"error":null}]'' then Some (JArr [JObj [(''error'', JNull)]])
      else if s = ''[[{"id":"m1"}]]'' then Some (JArr [JArr [msg ''m1'']])
      else if s = ''[[{"id":"m1"},{"id":"m2"},{"id":"m3"}]]''
        then Some (JArr [JArr [msg ''m1'', msg ''m2'', msg ''m3'']])
      else if s = ''[{"id":"m1"},{"id":"m2"}]'' then Some (JArr [msg ''m1'', msg ''m2''])
      else if s = ''[{"messages":[{"id":"m1"}]}]''
        then Some (JArr [JObj [(''messages'', JArr [msg ''m1''])]])
      else if s = ''["newMessage",{"id":"m4"}]'' then Some (JArr [JStr ''newMessage'', msg ''m4''])
      else if s = ''["newMessage",{"id":"m5"}]'' then Some (JArr [JStr ''newMessage'', msg ''m5''])
      else None)\<close>

text \<open>The example client with a listener for \<^verbatim>\<open>error\<close>.\<close>

definition example_listening :: client where
  "example_listening = addListener ''error'' example_client"

text \<open>The example client after the transport has opened.\<close>

definition example_open :: client where
  "example_open = on_connect example_client"

text \<open>The example client after the handshake and the join, waiting for the history.\<close>

definition example_joined :: client where
  \<open>example_joined =
     run example_parse example_open
       [(1, OnMessage (Utf8 ''0{"pingInterval":1000}'')),
        (2, OnMessage (Utf8 ''40'')),
        (3, OnMessage (Utf8 ''430[{"error":null}]''))]\<close>

text \<open>The example client after two chat messages.\<close>

definition example_two :: client where
  \<open>example_two =
     run example_parse example_open
       [(5, OnMessage (Utf8 ''42["newMessage",{"id":"m4"}]'')),
        (6, OnMessage (Utf8 ''42["newMessage",{"id":"m5"}]''))]\<close>

text \<open>
  An allocated address other than the buffer's is \<open>untouched\<close> from \<open>c\<close> to \<open>c'\<close> when
  it is still allocated, still not the buffer's, and holds the same value.
\<close>

definition untouched :: "addr \<Rightarrow> client \<Rightarrow> client \<Rightarrow> bool" where
  "untouched a c c' =
     (wf_store c' \<and> a < nextAddr c' \<and> a \<noteq> messageHistory c' \<and> heap c' a = heap c a)"

text \<open>Chat messages handled one after the other; the first exception ends it.\<close>

fun newMessages :: "jsval list \<Rightarrow> client \<Rightarrow> error + client" where
  "newMessages [] c = Inr c"
| "newMessages (m # ms) c =
     (case handleNewMessage m c of Inl e \<Rightarrow> Inl e | Inr c' \<Rightarrow> newMessages ms c')"

text \<open>
  What one callback may do to the store: change nothing or the buffer's array in place,
  or allocate one object, which may become the buffer.
\<close>

definition store_step :: "client \<Rightarrow> client \<Rightarrow> bool" where
  "store_step c c' =
     ((messageHistory c' = messageHistory c \<and> nextAddr c' = nextAddr c
        \<and> (\<forall>a. a \<noteq> messageHistory c \<longrightarrow> heap c' a = heap c a))
    \<or> (nextAddr c' = nextAddr c + 1
        \<and> (messageHistory c' = messageHistory c \<or> messageHistory c' = nextAddr c)
        \<and> (\<forall>a. a \<noteq> nextAddr c \<longrightarrow> heap c' a = heap c a)))"

section \<open>Reading traces\<close>

lemma digit_val_digits [simp]:
  "digit_val CHR ''0'' = 0" "digit_val CHR ''1'' = 1" "digit_val CHR ''2'' = 2"
  "digit_val CHR ''3'' = 3" "digit_val CHR ''4'' = 4" "digit_val CHR ''5'' = 5"
  "digit_val CHR ''6'' = 6" "digit_val CHR ''7'' = 7" "digit_val CHR ''8'' = 8"
  "digit_val CHR ''9'' = 9"
  by (simp_all add: digit_val_def)

lemma reconnect_delays_append [simp]:
  "reconnect_delays (xs @ ys) = reconnect_delays xs @ reconnect_delays ys"
  by (simp add: reconnect_delays_def)

lemma emitted_append [simp]: "emitted ev (xs @ ys) = emitted ev xs @ emitted ev ys"
  by (simp add: emitted_def)

lemma events_append [simp]: "events (xs @ ys) = events xs @ events ys"
  by (simp add: events_def)

lemma sent_append [simp]: "sent (xs @ ys) = sent xs @ sent ys"
  by (simp add: sent_def)


section \<open>The reconnect policy\<close>



lemma example_client_fields:
  "reconnectAttempts example_client = 0" "maxReconnectAttempts example_client = 5"
  "trace example_client = []" "isConnected example_client = False"
  "connection example_client = None" "pendingAcks example_client = []"
  "messageHistoryLimit example_client = 2" "messageHistory example_client = 0"
  "nextAddr example_client = 1" "heap example_client 0 = JArr []"
  "pingInterval example_client = None" "ackId example_client = 0"
  "roomId example_client = ''room1''" "username example_client = ''anonymous''"
  "listeners example_client = []"
  by (simp_all add: example_client_def PumpChatClient_def)

section \<open>The sweep\<close>

lemma delete_filter_keys:
  "AList.delete k (filter (\<lambda>(k', p). k' \<notin> K) m) = filter (\<lambda>(k', p). k' \<notin> insert k K) m"
  by (induction m) (auto simp: AList.delete_eq)

lemma sweep_keys:
  "sweep now entries (filter (\<lambda>(k, p). k \<notin> K) m)
     = filter (\<lambda>(k, p). k \<notin> K \<union> {k'. \<exists>p'. (k', p') \<in> set entries \<and> now - timestamp p' > 30000}) m"
proof (induction entries arbitrary: K)
  case Nil
  then show ?case by simp
next
  case (Cons e entries)
  obtain k p where e: "e = (k, p)" by (cases e)
  show ?case
  proof (cases "now - timestamp p > 30000")
    case True
    have "K \<union> {k'. \<exists>p'. (k', p') \<in> set (e # entries) \<and> now - timestamp p' > 30000}
        = insert k K \<union> {k'. \<exists>p'. (k', p') \<in> set entries \<and> now - timestamp p' > 30000}"
      using True e by auto
    then show ?thesis using True e Cons.IH [of "insert k K"] by (simp add: delete_filter_keys)
  next
    case False
    have "K \<union> {k'. \<exists>p'. (k', p') \<in> set (e # entries) \<and> now - timestamp p' > 30000}
        = K \<union> {k'. \<exists>p'. (k', p') \<in> set entries \<and> now - timestamp p' > 30000}"
      using False e by auto
    then show ?thesis using False e Cons.IH [of K] by simp
  qed
qed

lemma sweep_all:
  assumes "distinct (map fst m)"
  shows "sweep now m m = filter (\<lambda>(k, p). \<not> timestamp p < now - 30000) m"
proof -
  have "sweep now m m = sweep now m (filter (\<lambda>(k, p). k \<notin> {}) m)" by simp
  also have "\<dots> = filter (\<lambda>(k, p). k \<notin> {k'. \<exists>p'. (k', p') \<in> set m \<and> now - timestamp p' > 30000}) m"
    using sweep_keys [of now m "{}" m] by simp
  also have "\<dots> = filter (\<lambda>(k, p). \<not> timestamp p < now - 30000) m"
  proof (rule filter_cong [OF refl])
    fix x assume x: "x \<in> set m"
    obtain k p where kp: "x = (k, p)" by (cases x)
    have "(\<exists>p'. (k, p') \<in> set m \<and> now - timestamp p' > 30000) \<longleftrightarrow> now - timestamp p > 30000"
      using x kp assms by (metis eq_key_imp_eq_value)
    then show "(case x of (k, p) \<Rightarrow> k \<notin> {k'. \<exists>p'. (k', p') \<in> set m \<and> now - timestamp p' > 30000})
             = (case x of (k, p) \<Rightarrow> \<not> timestamp p < now - 30000)"
      using kp by auto
  qed
  finally show ?thesis .
qed

text \<open>
  Claim C8. A sweep at time \<open>now\<close> removes exactly the pending entries created before
  \<open>now - 30000\<close> milliseconds and leaves the others as they are, in their order;
  nothing else of the client changes. The sweep is what the cleanup timer runs, and
  that timer is set with a period of 10000 milliseconds when the transport opens.
\<close>

theorem sweep_removes_stale:
  assumes "distinct (map fst (pendingAcks c))"
  shows "cleanupStaleAcks now c
           = c\<lparr>pendingAcks := filter (\<lambda>(ack, p). \<not> timestamp p < now - 30000) (pendingAcks c)\<rparr>
       \<and> step parse c (now, CleanupTimer) = (None, cleanupStaleAcks now c)
       \<and> trace (on_connect c)
           = trace c @ [ConsoleError ''[INIT] WebSocket Client Connected'', Emit ''connected'' [],
                        SetInterval CleanupStaleAcks (JNum 10000)]"
  using sweep_all [OF assms, of now]
  by (simp add: cleanupStaleAcks_def on_connect_def setupConnectionHandlers_def emit_def
        console_error_def effect_def)


theorem sweep_removes_stale_witness:
  "distinct (map fst (pendingAcks (track 1 ''getMessageHistory'' 5000
                                     (track 0 ''joinRoom'' 0 example_client))))
   \<and> pendingAcks (cleanupStaleAcks 30001 (track 1 ''getMessageHistory'' 5000
                                     (track 0 ''joinRoom'' 0 example_client)))
       = [(1, \<lparr>event = ''getMessageHistory'', timestamp = 5000\<rparr>)]
   \<and> pendingAcks (cleanupStaleAcks 30000 (track 1 ''getMessageHistory'' 5000
                                     (track 0 ''joinRoom'' 0 example_client)))
       = [(0, \<lparr>event = ''joinRoom'', timestamp = 0\<rparr>),
          (1, \<lparr>event = ''getMessageHistory'', timestamp = 5000\<rparr>)]"
  using sweep_removes_stale [of "track 1 ''getMessageHistory'' 5000
                                   (track 0 ''joinRoom'' 0 example_client)" 30001 example_parse]
        sweep_removes_stale [of "track 1 ''getMessageHistory'' 5000
                                   (track 0 ''joinRoom'' 0 example_client)" 30000 example_parse]
  by (simp add: track_def example_client_fields)

section \<open>Sending while not connected\<close>

text \<open>
  Claim C4, amended. While \<^verbatim>\<open>isActive()\<close> is false, \<^verbatim>\<open>sendMessage\<close> writes nothing to
  the transport and leaves the pending acknowledgments unchanged; it emits no event at
  all: its only effect is the line \<^verbatim>\<open>Cannot send message: not connected\<close> on
  \<^verbatim>\<open>console.error\<close>.
\<close>

theorem sendMessage_not_connected:
  assumes "\<not> isActive c"
  shows "sendMessage now text c = console_error ''Cannot send message: not connected'' c
       \<and> sent (trace (sendMessage now text c)) = sent (trace c)
       \<and> pendingAcks (sendMessage now text c) = pendingAcks c
       \<and> events (trace (sendMessage now text c)) = events (trace c)"
  using assms
  by (simp add: sendMessage_def isActive_def console_error_def effect_def sent_def events_def)

theorem sendMessage_not_connected_witness:
  "\<not> isActive example_client
   \<and> sent (trace (sendMessage 0 ''hello'' example_client)) = []
   \<and> pendingAcks (sendMessage 0 ''hello'' example_client) = []
   \<and> events (trace (sendMessage 0 ''hello'' example_client)) = []"
  using sendMessage_not_connected [of example_client 0 "''hello''"]
  by (simp add: isActive_def example_client_fields sent_def events_def console_error_def
        effect_def)

text \<open>
  The claim as stated asks for an error event. A client that never connected emits
  none when \<^verbatim>\<open>sendMessage\<close> is called.
\<close>

theorem sendMessage_error_event_counterexample:
  "\<not> isActive example_client
   \<and> trace (sendMessage 0 ''hello'' example_client)
       = [ConsoleError ''Cannot send message: not connected'']
   \<and> emitted ''error'' (trace (sendMessage 0 ''hello'' example_client)) = []"
  by (simp add: sendMessage_def isActive_def example_client_fields console_error_def effect_def
        emitted_def)

section \<open>Disconnecting\<close>

lemma stopPing_store [simp]:
  "heap (stopPing c) = heap c" "messageHistory (stopPing c) = messageHistory c"
  "nextAddr (stopPing c) = nextAddr c" "pendingAcks (stopPing c) = pendingAcks c"
  "connection (stopPing c) = connection c" "isConnected (stopPing c) = isConnected c"
  "pingInterval (stopPing c) = None"
  "reconnectAttempts (stopPing c) = reconnectAttempts c"
  "maxReconnectAttempts (stopPing c) = maxReconnectAttempts c"
  "messageHistoryLimit (stopPing c) = messageHistoryLimit c"
  "ackId (stopPing c) = ackId c"
  by (simp_all add: stopPing_def effect_def split: option.split)

lemma effect_fields [simp]:
  "heap (effect e c) = heap c" "messageHistory (effect e c) = messageHistory c"
  "nextAddr (effect e c) = nextAddr c" "pendingAcks (effect e c) = pendingAcks c"
  "connection (effect e c) = connection c" "isConnected (effect e c) = isConnected c"
  "pingInterval (effect e c) = pingInterval c"
  "reconnectAttempts (effect e c) = reconnectAttempts c"
  "maxReconnectAttempts (effect e c) = maxReconnectAttempts c"
  "messageHistoryLimit (effect e c) = messageHistoryLimit c"
  "ackId (effect e c) = ackId c" "roomId (effect e c) = roomId c"
  "username (effect e c) = username c"
  "trace (effect e c) = trace c @ [e]"
  by (simp_all add: effect_def)

lemma attemptReconnect_store [simp]:
  "heap (attemptReconnect c) = heap c" "messageHistory (attemptReconnect c) = messageHistory c"
  "nextAddr (attemptReconnect c) = nextAddr c" "pendingAcks (attemptReconnect c) = pendingAcks c"
  "isConnected (attemptReconnect c) = isConnected c"
  "connection (attemptReconnect c) = connection c"
  by (simp_all add: attemptReconnect_def emit_def console_error_def Let_def)

lemma disconnect_store [simp]:
  "heap (disconnect c) = heap c" "messageHistory (disconnect c) = messageHistory c"
  "nextAddr (disconnect c) = nextAddr c" "pendingAcks (disconnect c) = pendingAcks c"
  "pingInterval (disconnect c) = None"
  by (simp_all add: disconnect_def Let_def split: option.split)

lemma on_close_store [simp]:
  "heap (on_close c) = heap c" "messageHistory (on_close c) = messageHistory c"
  "nextAddr (on_close c) = nextAddr c" "pendingAcks (on_close c) = pendingAcks c"
  by (simp_all add: on_close_def emit_def console_error_def Let_def)

lemma getMessages_value_cong:
  assumes "heap c' = heap c" and "messageHistory c' = messageHistory c"
    and "nextAddr c' = nextAddr c"
  shows "getMessages_value limit c' = getMessages_value limit c"
  using assms
  by (simp add: getMessages_value_def getMessages_def alloc_def split: jsval.split)

text \<open>
  Claim C10. \<^verbatim>\<open>disconnect()\<close> changes neither the history buffer nor the pending
  acknowledgments: \<^verbatim>\<open>getMessages\<close> (with any limit or none) returns the same before and
  after, and the table of pending entries is the same. The same holds once the
  transport's close event has followed.
\<close>

theorem disconnect_keeps_history_and_pending:
  "getMessages_value limit (disconnect c) = getMessages_value limit c
   \<and> buffer (disconnect c) = buffer c
   \<and> pendingAcks (disconnect c) = pendingAcks c
   \<and> getMessages_value limit (on_close (disconnect c)) = getMessages_value limit c
   \<and> buffer (on_close (disconnect c)) = buffer c
   \<and> pendingAcks (on_close (disconnect c)) = pendingAcks c"
proof -
  have "getMessages_value limit (disconnect c) = getMessages_value limit c"
    by (rule getMessages_value_cong) simp_all
  moreover have "getMessages_value limit (on_close (disconnect c)) = getMessages_value limit c"
    by (rule getMessages_value_cong) simp_all
  ultimately show ?thesis by (simp add: buffer_def)
qed

lemma example_open_fields:
  "reconnectAttempts example_open = 0" "maxReconnectAttempts example_open = 5"
  "isConnected example_open = True"
  "connection example_open = Some WebSocketConnection" "pendingAcks example_open = []"
  "messageHistoryLimit example_open = 2" "messageHistory example_open = 0"
  "nextAddr example_open = 1" "heap example_open 0 = JArr []"
  "pingInterval example_open = None" "ackId example_open = 0"
  "roomId example_open = ''room1''" "username example_open = ''anonymous''"
  "trace example_open = [ConsoleError ''[INIT] WebSocket Client Connected'', Emit ''connected'' [],
                         SetInterval CleanupStaleAcks (JNum 10000)]"
  by (simp_all add: example_open_def on_connect_def setupConnectionHandlers_def emit_def
        console_error_def example_client_fields Let_def)

text \<open>
  Claim C3 fails on the code. On a connected client, \<^verbatim>\<open>disconnect()\<close> closes the
  transport, and the close handler that follows schedules a reconnect after 2000
  milliseconds. A reconnect already scheduled is not cancelled either: after a failed
  connection attempt (on a client that listens for \<^verbatim>\<open>error\<close>), \<^verbatim>\<open>disconnect()\<close> has no
  effect at all, and when the timeout
  fires the client connects again.
\<close>

theorem disconnect_then_close_reconnects:
  "trace (run example_parse example_open [(0, CallDisconnect), (1, OnClose)])
     = trace example_open
       @ [ConnectionClose, ConsoleError ''[INFO] WebSocket Connection Closed'',
          Emit ''disconnected'' [], Emit ''tryReconnect'' [],
          ConsoleError ''[INFO] Attempting to reconnect'', SetTimeout Reconnect 2000]
   \<and> trace (run example_parse example_listening
        [(0, OnConnectFailed ''refused''), (1, CallDisconnect), (2000, ReconnectTimer)])
     = [ConsoleError ''Connection Failed:'', Emit ''error'' [JStr ''refused''],
        Emit ''tryReconnect'' [], ConsoleError ''[INFO] Attempting to reconnect'',
        SetTimeout Reconnect 2000, WebSocketConnect]"
  by code_simp

section \<open>What the small operations leave alone\<close>

lemma trace_reads_effect [simp]:
  "events (trace (effect e c)) = events (trace c) @ events [e]"
  "emitted ev (trace (effect e c)) = emitted ev (trace c) @ emitted ev [e]"
  "sent (trace (effect e c)) = sent (trace c) @ sent [e]"
  "reconnect_delays (trace (effect e c)) = reconnect_delays (trace c) @ reconnect_delays [e]"
  by (simp_all add: effect_def)

lemma trace_reads_Nil [simp]:
  "events [] = []" "emitted ev [] = []" "sent [] = []" "reconnect_delays [] = []"
  by (simp_all add: events_def emitted_def sent_def reconnect_delays_def)

lemma events_Cons [simp]:
  "events (Emit ev args # es) = ev # events es" "events (SendUTF d # es) = events es"
  "events (ConsoleError s # es) = events es" "events (SetInterval cb v # es) = events es"
  "events (ClearInterval t # es) = events es" "events (SetTimeout cb n # es) = events es"
  "events (ConnectionClose # es) = events es" "events (WebSocketConnect # es) = events es"
  by (simp_all add: events_def)

lemma emitted_Cons [simp]:
  "emitted ev' (Emit ev args # es) = (if ev = ev' then [args] else []) @ emitted ev' es"
  "emitted ev' (SendUTF d # es) = emitted ev' es"
  "emitted ev' (ConsoleError s # es) = emitted ev' es"
  "emitted ev' (SetInterval cb v # es) = emitted ev' es"
  "emitted ev' (ClearInterval t # es) = emitted ev' es"
  "emitted ev' (SetTimeout cb n # es) = emitted ev' es"
  "emitted ev' (ConnectionClose # es) = emitted ev' es"
  "emitted ev' (WebSocketConnect # es) = emitted ev' es"
  by (simp_all add: emitted_def)

lemma sent_Cons [simp]:
  "sent (Emit ev args # es) = sent es" "sent (SendUTF d # es) = d # sent es"
  "sent (ConsoleError s # es) = sent es" "sent (SetInterval cb v # es) = sent es"
  "sent (ClearInterval t # es) = sent es" "sent (SetTimeout cb n # es) = sent es"
  "sent (ConnectionClose # es) = sent es" "sent (WebSocketConnect # es) = sent es"
  by (simp_all add: sent_def)

lemma emit_fields [simp]:
  "heap (emit ev args c) = heap c" "messageHistory (emit ev args c) = messageHistory c"
  "nextAddr (emit ev args c) = nextAddr c" "pendingAcks (emit ev args c) = pendingAcks c"
  "connection (emit ev args c) = connection c" "isConnected (emit ev args c) = isConnected c"
  "pingInterval (emit ev args c) = pingInterval c"
  "reconnectAttempts (emit ev args c) = reconnectAttempts c"
  "maxReconnectAttempts (emit ev args c) = maxReconnectAttempts c"
  "messageHistoryLimit (emit ev args c) = messageHistoryLimit c"
  "ackId (emit ev args c) = ackId c" "roomId (emit ev args c) = roomId c"
  "username (emit ev args c) = username c"
  "trace (emit ev args c) = trace c @ [Emit ev args]"
  by (simp_all add: emit_def)

lemma console_error_fields [simp]:
  "heap (console_error s c) = heap c" "messageHistory (console_error s c) = messageHistory c"
  "nextAddr (console_error s c) = nextAddr c" "pendingAcks (console_error s c) = pendingAcks c"
  "connection (console_error s c) = connection c" "isConnected (console_error s c) = isConnected c"
  "pingInterval (console_error s c) = pingInterval c"
  "reconnectAttempts (console_error s c) = reconnectAttempts c"
  "maxReconnectAttempts (console_error s c) = maxReconnectAttempts c"
  "messageHistoryLimit (console_error s c) = messageHistoryLimit c"
  "ackId (console_error s c) = ackId c" "roomId (console_error s c) = roomId c"
  "username (console_error s c) = username c"
  "trace (console_error s c) = trace c @ [ConsoleError s]"
  by (simp_all add: console_error_def)

lemma send_fields [simp]:
  "heap (send d c) = heap c" "messageHistory (send d c) = messageHistory c"
  "nextAddr (send d c) = nextAddr c" "pendingAcks (send d c) = pendingAcks c"
  "connection (send d c) = connection c" "isConnected (send d c) = isConnected c"
  "pingInterval (send d c) = pingInterval c"
  "reconnectAttempts (send d c) = reconnectAttempts c"
  "maxReconnectAttempts (send d c) = maxReconnectAttempts c"
  "messageHistoryLimit (send d c) = messageHistoryLimit c"
  "ackId (send d c) = ackId c" "roomId (send d c) = roomId c"
  "username (send d c) = username c"
  "events (trace (send d c)) = events (trace c)"
  "emitted ev (trace (send d c)) = emitted ev (trace c)"
  by (simp_all add: send_def)

lemma track_fields [simp]:
  "heap (track a ev now c) = heap c" "messageHistory (track a ev now c) = messageHistory c"
  "nextAddr (track a ev now c) = nextAddr c"
  "pendingAcks (track a ev now c) = AList.update a \<lparr>event = ev, timestamp = now\<rparr> (pendingAcks c)"
  "connection (track a ev now c) = connection c" "isConnected (track a ev now c) = isConnected c"
  "pingInterval (track a ev now c) = pingInterval c"
  "reconnectAttempts (track a ev now c) = reconnectAttempts c"
  "maxReconnectAttempts (track a ev now c) = maxReconnectAttempts c"
  "messageHistoryLimit (track a ev now c) = messageHistoryLimit c"
  "ackId (track a ev now c) = ackId c" "roomId (track a ev now c) = roomId c"
  "username (track a ev now c) = username c" "trace (track a ev now c) = trace c"
  by (simp_all add: track_def)

lemma startPing_fields [simp]:
  "heap (startPing v c) = heap c" "messageHistory (startPing v c) = messageHistory c"
  "nextAddr (startPing v c) = nextAddr c" "pendingAcks (startPing v c) = pendingAcks c"
  "connection (startPing v c) = connection c" "isConnected (startPing v c) = isConnected c"
  "pingInterval (startPing v c) = Some (Timeout Ping v)"
  "reconnectAttempts (startPing v c) = reconnectAttempts c"
  "maxReconnectAttempts (startPing v c) = maxReconnectAttempts c"
  "messageHistoryLimit (startPing v c) = messageHistoryLimit c"
  "ackId (startPing v c) = ackId c" "roomId (startPing v c) = roomId c"
  "username (startPing v c) = username c"
  "events (trace (startPing v c)) = events (trace c)"
  "emitted ev (trace (startPing v c)) = emitted ev (trace c)"
  by (simp_all add: startPing_def stopPing_def split: option.split)

lemma stopPing_more [simp]:
  "roomId (stopPing c) = roomId c" "username (stopPing c) = username c"
  "events (trace (stopPing c)) = events (trace c)"
  "emitted ev (trace (stopPing c)) = emitted ev (trace c)"
  "sent (trace (stopPing c)) = sent (trace c)"
  by (simp_all add: stopPing_def split: option.split)

lemma requestMessageHistory_fields [simp]:
  "heap (requestMessageHistory now c) = heap c"
  "messageHistory (requestMessageHistory now c) = messageHistory c"
  "nextAddr (requestMessageHistory now c) = nextAddr c"
  "pendingAcks (requestMessageHistory now c)
     = AList.update (ackId c) \<lparr>event = ''getMessageHistory'', timestamp = now\<rparr> (pendingAcks c)"
  "connection (requestMessageHistory now c) = connection c"
  "isConnected (requestMessageHistory now c) = isConnected c"
  "pingInterval (requestMessageHistory now c) = pingInterval c"
  "reconnectAttempts (requestMessageHistory now c) = reconnectAttempts c"
  "maxReconnectAttempts (requestMessageHistory now c) = maxReconnectAttempts c"
  "messageHistoryLimit (requestMessageHistory now c) = messageHistoryLimit c"
  "ackId (requestMessageHistory now c) = (ackId c + 1) mod 10"
  "roomId (requestMessageHistory now c) = roomId c"
  "username (requestMessageHistory now c) = username c"
  "events (trace (requestMessageHistory now c)) = events (trace c)"
  "emitted ev (trace (requestMessageHistory now c)) = emitted ev (trace c)"
  by (simp_all add: requestMessageHistory_def getNextAckId_def)

lemma handleConnectedAck_fields [simp]:
  "heap (handleConnectedAck now c) = heap c"
  "messageHistory (handleConnectedAck now c) = messageHistory c"
  "nextAddr (handleConnectedAck now c) = nextAddr c"
  "pendingAcks (handleConnectedAck now c)
     = AList.update (ackId c) \<lparr>event = ''joinRoom'', timestamp = now\<rparr> (pendingAcks c)"
  "connection (handleConnectedAck now c) = connection c"
  "isConnected (handleConnectedAck now c) = isConnected c"
  "pingInterval (handleConnectedAck now c) = pingInterval c"
  "reconnectAttempts (handleConnectedAck now c) = reconnectAttempts c"
  "maxReconnectAttempts (handleConnectedAck now c) = maxReconnectAttempts c"
  "messageHistoryLimit (handleConnectedAck now c) = messageHistoryLimit c"
  "ackId (handleConnectedAck now c) = (ackId c + 1) mod 10"
  "roomId (handleConnectedAck now c) = roomId c"
  "username (handleConnectedAck now c) = username c"
  "events (trace (handleConnectedAck now c)) = events (trace c)"
  "emitted ev (trace (handleConnectedAck now c)) = emitted ev (trace c)"
  by (simp_all add: handleConnectedAck_def getNextAckId_def)

lemma assignMessageHistory_fields [simp]:
  "heap (assignMessageHistory v c) = (heap c)(nextAddr c := v)"
  "messageHistory (assignMessageHistory v c) = nextAddr c"
  "nextAddr (assignMessageHistory v c) = nextAddr c + 1"
  "pendingAcks (assignMessageHistory v c) = pendingAcks c"
  "connection (assignMessageHistory v c) = connection c"
  "isConnected (assignMessageHistory v c) = isConnected c"
  "pingInterval (assignMessageHistory v c) = pingInterval c"
  "reconnectAttempts (assignMessageHistory v c) = reconnectAttempts c"
  "maxReconnectAttempts (assignMessageHistory v c) = maxReconnectAttempts c"
  "messageHistoryLimit (assignMessageHistory v c) = messageHistoryLimit c"
  "ackId (assignMessageHistory v c) = ackId c"
  "roomId (assignMessageHistory v c) = roomId c"
  "username (assignMessageHistory v c) = username c"
  "trace (assignMessageHistory v c) = trace c @ [Emit ''messageHistory'' [v]]"
  "buffer (assignMessageHistory v c) = v"
  by (simp_all add: assignMessageHistory_def buffer_def)

section \<open>Frame types\<close>

lemma takeWhile_digits_prefix:
  assumes "\<forall>ch \<in> set ds. is_digit ch" and "no_leading_digit p"
  shows "takeWhile is_digit (ds @ p) = ds"
proof -
  have "takeWhile is_digit p = []"
    using assms(2) by (cases p) (simp_all add: no_leading_digit_def)
  then show ?thesis using assms(1) by (simp add: takeWhile_append2)
qed

lemma leading_digits_prefix:
  assumes "\<forall>ch \<in> set ds. is_digit ch" and "no_leading_digit p" and "ds \<noteq> []"
  shows "leading_digits (ds @ p) = Some ds"
  using takeWhile_digits_prefix [OF assms(1,2)] assms(3) by (simp add: leading_digits_def)

lemma PumpChatClient_fields:
  "reconnectAttempts (PumpChatClient opts) = 0" "maxReconnectAttempts (PumpChatClient opts) = 5"
  "trace (PumpChatClient opts) = []" "isConnected (PumpChatClient opts) = False"
  "connection (PumpChatClient opts) = None" "pendingAcks (PumpChatClient opts) = []"
  "messageHistory (PumpChatClient opts) = 0"
  "nextAddr (PumpChatClient opts) = 1" "heap (PumpChatClient opts) 0 = JArr []"
  "pingInterval (PumpChatClient opts) = None" "ackId (PumpChatClient opts) = 0"
  by (simp_all add: PumpChatClient_def)

lemma on_connect_fields [simp]:
  "heap (on_connect c) = heap c" "messageHistory (on_connect c) = messageHistory c"
  "nextAddr (on_connect c) = nextAddr c" "pendingAcks (on_connect c) = pendingAcks c"
  "connection (on_connect c) = Some WebSocketConnection" "isConnected (on_connect c) = True"
  "pingInterval (on_connect c) = pingInterval c"
  "reconnectAttempts (on_connect c) = 0"
  "maxReconnectAttempts (on_connect c) = maxReconnectAttempts c"
  "messageHistoryLimit (on_connect c) = messageHistoryLimit c"
  "ackId (on_connect c) = ackId c" "roomId (on_connect c) = roomId c"
  "username (on_connect c) = username c"
  "events (trace (on_connect c)) = events (trace c) @ [''connected'']"
  "emitted ev (trace (on_connect c))
     = emitted ev (trace c) @ (if ev = ''connected'' then [[]] else [])"
  by (auto simp add: on_connect_def setupConnectionHandlers_def Let_def)

section \<open>Handshake, join and history\<close>

text \<open>
  Claim C2. A new client whose transport opens and which then receives the frames
  \<^verbatim>\<open>0{"pingInterval":1000}\<close>, \<^verbatim>\<open>40\<close>, \<^verbatim>\<open>430[{"error":null}]\<close> and \<^verbatim>\<open>431\<close> followed by a
  text that parses to an array holding one array with one message of identifier
  \<^verbatim>\<open>m1\<close>: \<^verbatim>\<open>isActive()\<close> turns true exactly once and stays true, and exactly one
  \<^verbatim>\<open>messageHistory\<close> event is emitted, whose argument is the array with that one
  message, which is also the buffer. No handler throws.
\<close>

theorem handshake_join_history:
  assumes p0: \<open>parse ''{"pingInterval":1000}'' = Some (JObj [(''pingInterval'', JNum 1000)])\<close>
    and p1: \<open>parse ''[{"error":null}]'' = Some (JArr [JObj [(''error'', JNull)]])\<close>
    and p2: "parse h = Some (JArr [JArr [JObj ((''id'', JStr ''m1'') # others)]])"
    and h: "no_leading_digit h"
    and inputs: \<open>inputs = [(ta, OnConnect),
                  (tb, OnMessage (Utf8 ''0{"pingInterval":1000}'')),
                  (tc, OnMessage (Utf8 ''40'')),
                  (td, OnMessage (Utf8 ''430[{"error":null}]'')),
                  (te, OnMessage (Utf8 (''431'' @ h)))]\<close>
  shows "emitted ''messageHistory'' (trace (run parse (PumpChatClient opts) inputs))
           = [[JArr [JObj ((''id'', JStr ''m1'') # others)]]]
       \<and> events (trace (run parse (PumpChatClient opts) inputs)) = [''connected'', ''messageHistory'']
       \<and> buffer (run parse (PumpChatClient opts) inputs) = JArr [JObj ((''id'', JStr ''m1'') # others)]
       \<and> isActive (run parse (PumpChatClient opts) inputs)
       \<and> activations parse (PumpChatClient opts) inputs = 1
       \<and> raised parse (PumpChatClient opts) inputs = []"
proof -
  define c0 where "c0 = PumpChatClient opts"
  define c1 where "c1 = on_connect c0"
  define c2 where \<open>c2 = send (''40{"origin":"https://pump.fun","timestamp":'' @ show_int tb
                          @ '',"token":null}'') (startPing (JNum 1000) c1)\<close>
  define c3 where "c3 = handleConnectedAck tc c2"
  define c4 where "c4 = requestMessageHistory td (c3\<lparr>pendingAcks := []\<rparr>)"
  define c5 where "c5 = assignMessageHistory (JArr [JObj ((''id'', JStr ''m1'') # others)])
                          (c4\<lparr>pendingAcks := []\<rparr>)"
  have f1: "ackId c1 = 0" "pendingAcks c1 = []" "isConnected c1" "events (trace c1) = [''connected'']"
    "emitted ''messageHistory'' (trace c1) = []"
    by (simp_all add: c1_def c0_def PumpChatClient_fields)
  have s1: \<open>handleMessage parse tb ''0{"pingInterval":1000}'' c1 = Inr c2\<close>
    by (simp add: handleMessage_def leading_digits_def is_digit_def handleConnect_def p0 c2_def)
  have f2: "ackId c2 = 0" "pendingAcks c2 = []" "isConnected c2" "events (trace c2) = [''connected'']"
    "emitted ''messageHistory'' (trace c2) = []"
    using f1 by (simp_all add: c2_def)
  have s2: "handleMessage parse tc ''40'' c2 = Inr c3"
    by (simp add: handleMessage_def leading_digits_def is_digit_def c3_def)
  have f3: "ackId c3 = 1" "pendingAcks c3 = [(0, \<lparr>event = ''joinRoom'', timestamp = tc\<rparr>)]"
    "isConnected c3" "events (trace c3) = [''connected'']"
    "emitted ''messageHistory'' (trace c3) = []"
    using f2 by (simp_all add: c3_def)
  have s3: \<open>handleMessage parse td ''430[{"error":null}]'' c3 = Inr c4\<close>
    by (simp add: handleMessage_def leading_digits_def is_digit_def handleNumberedAck_def
          parseInt_def f3 p1 c4_def AList.delete_eq)
  have f4: "ackId c4 = 2" "pendingAcks c4 = [(1, \<lparr>event = ''getMessageHistory'', timestamp = td\<rparr>)]"
    "isConnected c4" "events (trace c4) = [''connected'']"
    "emitted ''messageHistory'' (trace c4) = []"
    using f3 by (simp_all add: c4_def)
  have ld: "leading_digits (''431'' @ h) = Some ''431''"
    by (rule leading_digits_prefix) (simp_all add: is_digit_def h)
  have s4: "handleMessage parse te (''431'' @ h) c4 = Inr c5"
    using ld
    by (simp add: handleMessage_def handleNumberedAck_def
          parseInt_def f4 p2 c5_def AList.delete_eq)
  have f5: "isConnected c5" "events (trace c5) = [''connected'', ''messageHistory'']"
    "emitted ''messageHistory'' (trace c5) = [[JArr [JObj ((''id'', JStr ''m1'') # others)]]]"
    "buffer c5 = JArr [JObj ((''id'', JStr ''m1'') # others)]"
    using f4 by (simp_all add: c5_def)
  have r: "run parse (PumpChatClient opts) inputs = c5"
    using s1 s2 s3 s4 by (simp add: inputs on_message_def c1_def c0_def)
  have a: "activations parse (PumpChatClient opts) inputs = 1"
    using s1 s2 s3 s4 f1 f2 f3 f4 f5
    by (simp add: inputs on_message_def c1_def [symmetric] c0_def [symmetric] isActive_def)
       (simp add: c0_def PumpChatClient_fields)
  have e: "raised parse (PumpChatClient opts) inputs = []"
    using s1 s2 s3 s4 
    by (simp add: inputs on_message_def c1_def [symmetric] c0_def [symmetric])
  show ?thesis using r a e f5 by (simp add: isActive_def)
qed


theorem handshake_join_history_witness:
  \<open>example_parse ''{"pingInterval":1000}'' = Some (JObj [(''pingInterval'', JNum 1000)])
   \<and> example_parse ''[{"error":null}]'' = Some (JArr [JObj [(''error'', JNull)]])
   \<and> example_parse ''[[{"id":"m1"}]]'' = Some (JArr [JArr [JObj [(''id'', JStr ''m1'')]]])
   \<and> no_leading_digit ''[[{"id":"m1"}]]''
   \<and> emitted ''messageHistory'' (trace (run example_parse example_client
         [(0, OnConnect),
          (1, OnMessage (Utf8 ''0{"pingInterval":1000}'')),
          (2, OnMessage (Utf8 ''40'')),
          (3, OnMessage (Utf8 ''430[{"error":null}]'')),
          (4, OnMessage (Utf8 (''431'' @ ''[[{"id":"m1"}]]'')))]))
       = [[JArr [JObj [(''id'', JStr ''m1'')]]]]
   \<and> activations example_parse example_client
         [(0, OnConnect),
          (1, OnMessage (Utf8 ''0{"pingInterval":1000}'')),
          (2, OnMessage (Utf8 ''40'')),
          (3, OnMessage (Utf8 ''430[{"error":null}]'')),
          (4, OnMessage (Utf8 (''431'' @ ''[[{"id":"m1"}]]'')))] = 1\<close>
proof -
  have p0: \<open>example_parse ''{"pingInterval":1000}'' = Some (JObj [(''pingInterval'', JNum 1000)])\<close>
    by (simp add: example_parse_def)
  have p1: \<open>example_parse ''[{"error":null}]'' = Some (JArr [JObj [(''error'', JNull)]])\<close>
    by (simp add: example_parse_def)
  have p2: \<open>example_parse ''[[{"id":"m1"}]]'' = Some (JArr [JArr [JObj ((''id'', JStr ''m1'') # [])]])\<close>
    by (simp add: example_parse_def msg_def)
  have h: \<open>no_leading_digit ''[[{"id":"m1"}]]''\<close>
    by (simp add: no_leading_digit_def is_digit_def)
  show ?thesis
    using handshake_join_history [OF p0 p1 p2 h refl, where ta = 0 and tb = 1 and tc = 2
            and td = 3 and te = 4
            and opts = "\<lparr>opt_roomId = ''room1'', opt_username = None,
                          opt_messageHistoryLimit = Some 2\<rparr>"]
          p0 p1 p2 h
    unfolding example_client_def by blast
qed

section \<open>The bound of the history buffer\<close>

lemma handleNewMessage_array:
  assumes "buffer c = JArr xs"
  shows "handleNewMessage m c =
     Inr (emit ''message'' [m]
            (c\<lparr>heap := (heap c)(messageHistory c :=
                   JArr (if int (length xs) + 1 > messageHistoryLimit c then tl (xs @ [m])
                         else xs @ [m]))\<rparr>))"
  using assms by (simp add: handleNewMessage_def buffer_def Let_def)

lemma handleNewMessage_buffer:
  assumes "buffer c = JArr xs"
  shows "\<exists>c'. handleNewMessage m c = Inr c'
       \<and> buffer c' = JArr (if int (length xs) + 1 > messageHistoryLimit c then tl (xs @ [m])
                          else xs @ [m])
       \<and> messageHistoryLimit c' = messageHistoryLimit c"
  using handleNewMessage_array [OF assms, of m] by (simp add: buffer_def)

text \<open>
  What does hold of the bound: a buffer within a limit of at least 1 stays within it
  under \<^verbatim>\<open>handleNewMessage\<close>, and a full one loses exactly its oldest entry.
\<close>

lemma handleNewMessage_within_limit:
  assumes "buffer c = JArr xs" and "int (length xs) \<le> messageHistoryLimit c"
    and "1 \<le> messageHistoryLimit c"
  shows "\<exists>c' ys. handleNewMessage m c = Inr c' \<and> buffer c' = JArr ys
       \<and> int (length ys) \<le> messageHistoryLimit c
       \<and> ys = (if int (length xs) = messageHistoryLimit c then tl xs @ [m] else xs @ [m])"
proof -
  obtain c' where c': "handleNewMessage m c = Inr c'"
    "buffer c' = JArr (if int (length xs) + 1 > messageHistoryLimit c then tl (xs @ [m])
                          else xs @ [m])"
    using handleNewMessage_buffer [OF assms(1), of m] by blast
  show ?thesis
  proof (cases "int (length xs) = messageHistoryLimit c")
    case True
    then have "xs \<noteq> []" using assms(3) by auto
    then show ?thesis using c' True by simp
  next
    case False
    then show ?thesis using c' assms(2) by simp
  qed
qed

lemma newMessages_last:
  assumes "buffer c = JArr xs" and "int (length xs) \<le> messageHistoryLimit c"
    and "1 \<le> messageHistoryLimit c"
  shows "\<exists>c'. newMessages ms c = Inr c'
       \<and> buffer c' = JArr (drop (length (xs @ ms) - nat (messageHistoryLimit c)) (xs @ ms))
       \<and> messageHistoryLimit c' = messageHistoryLimit c"
  using assms
proof (induction ms arbitrary: c xs)
  case Nil
  then show ?case by simp
next
  case (Cons m ms)
  define ys where "ys = (if int (length xs) + 1 > messageHistoryLimit c then tl (xs @ [m])
                          else xs @ [m])"
  obtain c1 where c1: "handleNewMessage m c = Inr c1" "buffer c1 = JArr ys"
    "messageHistoryLimit c1 = messageHistoryLimit c"
    using handleNewMessage_buffer [OF Cons.prems(1), of m] unfolding ys_def by blast
  have len: "int (length ys) \<le> messageHistoryLimit c1"
    using Cons.prems(2,3) c1(3) by (auto simp: ys_def)
  have lim: "1 \<le> messageHistoryLimit c1" using Cons.prems(3) c1(3) by simp
  obtain c' where c': "newMessages ms c1 = Inr c'"
    "buffer c' = JArr (drop (length (ys @ ms) - nat (messageHistoryLimit c1)) (ys @ ms))"
    "messageHistoryLimit c' = messageHistoryLimit c1"
    using Cons.IH [OF c1(2) len lim] by blast
  have eq: "drop (length (ys @ ms) - nat (messageHistoryLimit c)) (ys @ ms)
          = drop (length (xs @ m # ms) - nat (messageHistoryLimit c)) (xs @ m # ms)"
  proof (cases "int (length xs) + 1 > messageHistoryLimit c")
    case True
    then have full: "length xs = nat (messageHistoryLimit c)" using Cons.prems(2,3) by linarith
    then obtain x xs' where xs: "xs = x # xs'" using Cons.prems(3) by (cases xs) auto
    have ys: "ys = xs' @ [m]" using True xs by (simp add: ys_def)
    have N: "nat (messageHistoryLimit c) = Suc (length xs')" using full xs by simp
    show ?thesis by (simp add: ys xs N)
  next
    case False
    then show ?thesis by (simp add: ys_def)
  qed
  show ?case using c1 c' eq by simp
qed

text \<open>
  From an empty buffer, after any messages in order, the buffer holds the last \<open>N\<close>
  of them, \<open>N\<close> the limit.
\<close>

lemma newMessages_from_empty:
  assumes "buffer c = JArr []" and "1 \<le> messageHistoryLimit c"
  shows "\<exists>c'. newMessages ms c = Inr c'
       \<and> getMessages_value None c' = Inr (JArr (drop (length ms - nat (messageHistoryLimit c)) ms))"
proof -
  obtain c' where c': "newMessages ms c = Inr c'"
    "buffer c' = JArr (drop (length ms - nat (messageHistoryLimit c)) ms)"
    using newMessages_last [OF assms(1), of ms] assms(2) by auto
  then show ?thesis
    by (auto simp: getMessages_value_def getMessages_def alloc_def buffer_def)
qed

text \<open>
  Claim C1 fails on the code. With a capacity of 2, a history response that carries
  three messages becomes the buffer as it is, and \<^verbatim>\<open>getMessages()\<close> returns all three.
  A chat message that arrives afterwards evicts one entry and leaves three again.
\<close>

theorem history_response_exceeds_limit:
  \<open>messageHistoryLimit example_joined = 2
   \<and> buffer (run example_parse example_joined
        [(4, OnMessage (Utf8 ''431[[{"id":"m1"},{"id":"m2"},{"id":"m3"}]]''))])
       = JArr [msg ''m1'', msg ''m2'', msg ''m3'']
   \<and> getMessages_value None (run example_parse example_joined
        [(4, OnMessage (Utf8 ''431[[{"id":"m1"},{"id":"m2"},{"id":"m3"}]]''))])
       = Inr (JArr [msg ''m1'', msg ''m2'', msg ''m3''])
   \<and> buffer (run example_parse example_joined
        [(4, OnMessage (Utf8 ''431[[{"id":"m1"},{"id":"m2"},{"id":"m3"}]]'')),
         (5, OnMessage (Utf8 ''42["newMessage",{"id":"m4"}]''))])
       = JArr [msg ''m2'', msg ''m3'', msg ''m4'']\<close>
  by code_simp

section \<open>Snapshots\<close>

lemma handleDisconnect_store [simp]:
  "heap (handleDisconnect parse data c) = heap c"
  "messageHistory (handleDisconnect parse data c) = messageHistory c"
  "nextAddr (handleDisconnect parse data c) = nextAddr c"
  "pendingAcks (handleDisconnect parse data c) = pendingAcks c"
  by (simp_all add: handleDisconnect_def Let_def)

lemma handleConnect_store:
  assumes "handleConnect parse now data c = Inr c'"
  shows "heap c' = heap c \<and> messageHistory c' = messageHistory c \<and> nextAddr c' = nextAddr c
       \<and> pendingAcks c' = pendingAcks c"
  using assms by (auto simp: handleConnect_def split: option.splits sum.splits if_splits)

lemma store_step_same:
  assumes "heap c' = heap c" and "messageHistory c' = messageHistory c"
    and "nextAddr c' = nextAddr c"
  shows "store_step c c'"
  using assms by (simp add: store_step_def)

lemma store_step_wf:
  assumes "store_step c c'" and "wf_store c"
  shows "wf_store c'"
  using assms by (auto simp: store_step_def wf_store_def)

lemma store_step_untouched:
  assumes "store_step c c'" and "wf_store c" and "a < nextAddr c" and "a \<noteq> messageHistory c"
  shows "untouched a c c'"
  using assms by (auto simp: store_step_def wf_store_def untouched_def)

lemma handleNewMessage_store:
  assumes "handleNewMessage m c = Inr c'"
  shows "store_step c c'"
  using assms
  by (auto simp: handleNewMessage_def store_step_def Let_def split: jsval.splits)

lemma handleEvent_store: "store_step c (handleEvent parse now data c)"
proof -
  have same: "\<And>c'. heap c' = heap c \<Longrightarrow> messageHistory c' = messageHistory c
      \<Longrightarrow> nextAddr c' = nextAddr c \<Longrightarrow> store_step c c'"
    by (rule store_step_same)
  show ?thesis
  proof (cases "parse (drop 2 data)")
    case None
    then have "handleEvent parse now data c = console_error ''Error parsing event:'' c"
      by (simp add: handleEvent_def)
    then show ?thesis by (simp add: same)
  next
    case (Some eventData)
    show ?thesis
    proof (cases "destructure2 eventData")
      case (Inl e)
      then have "handleEvent parse now data c = console_error ''Error parsing event:'' c"
        using Some by (simp add: handleEvent_def)
      then show ?thesis by (simp add: same)
    next
      case (Inr np)
      obtain eventName payload where np: "np = (eventName, payload)" by (cases np)
      consider (cookie) "eventName = JStr ''setCookie''"
        | (new) "eventName \<noteq> JStr ''setCookie''" "eventName = JStr ''newMessage''"
        | (left) "eventName \<noteq> JStr ''setCookie''" "eventName \<noteq> JStr ''newMessage''"
                 "eventName = JStr ''userLeft''"
        | (other) "eventName \<noteq> JStr ''setCookie''" "eventName \<noteq> JStr ''newMessage''"
                 "eventName \<noteq> JStr ''userLeft''"
        by blast
      then show ?thesis
      proof cases
        case cookie
        have "handleEvent parse now data c = requestMessageHistory now c"
          using Some Inr np cookie by (simp add: handleEvent_def)
        then show ?thesis by (simp add: same)
      next
        case new
        have eq: "handleEvent parse now data c =
            (case handleNewMessage payload c of
               Inl e \<Rightarrow> console_error ''Error parsing event:'' c | Inr c' \<Rightarrow> c')"
          using Some Inr np new by (simp add: handleEvent_def)
        show ?thesis
        proof (cases "handleNewMessage payload c")
          case (Inl e)
          then show ?thesis using eq by (simp add: same)
        next
          case r: (Inr c')
          then show ?thesis using eq handleNewMessage_store [OF r] by simp
        qed
      next
        case left
        have "handleEvent parse now data c = emit ''userLeft'' [payload] c"
          using Some Inr np left by (simp add: handleEvent_def)
        then show ?thesis by (simp add: same)
      next
        case other
        have "handleEvent parse now data c = c"
          using Some Inr np other by (simp add: handleEvent_def)
        then show ?thesis by (simp add: same)
      qed
    qed
  qed
qed

lemma handleEventWithAck_store: "store_step c (handleEventWithAck parse data c)"
proof -
  have leaves: "\<And>s. store_step c (console_error s c)"
    "\<And>v. store_step c (assignMessageHistory v c)" "store_step c c"
    by (simp_all add: store_step_def)
  show ?thesis
    by (simp add: handleEventWithAck_def leaves
          split: option.split sum.split jsval.split)
qed

lemma handleNumberedAck_store: "store_step c (handleNumberedAck parse now data c)"
proof -
  have leaves: "\<And>s p. store_step c (console_error s (c\<lparr>pendingAcks := p\<rparr>))"
    "\<And>v p. store_step c (assignMessageHistory v (c\<lparr>pendingAcks := p\<rparr>))"
    "\<And>p. store_step c (c\<lparr>pendingAcks := p\<rparr>)"
    "\<And>p. store_step c (requestMessageHistory now (c\<lparr>pendingAcks := p\<rparr>))"
    "\<And>s p v. store_step c (emit ''serverError'' v (console_error s (c\<lparr>pendingAcks := p\<rparr>)))"
    "\<And>s. store_step c (console_error s c)"
    "\<And>v. store_step c (assignMessageHistory v c)" "store_step c c"
    "store_step c (requestMessageHistory now c)"
    "\<And>s v. store_step c (emit ''serverError'' v (console_error s c))"
    by (simp_all add: store_step_def)
  show ?thesis
    by (simp add: handleNumberedAck_def Let_def leaves
          split: option.split sum.split)
qed

lemma handleMessage_store:
  "case handleMessage parse now data c of Inl e \<Rightarrow> True | Inr c' \<Rightarrow> store_step c c'"
proof -
  have same: "\<And>c'. heap c' = heap c \<Longrightarrow> messageHistory c' = messageHistory c
      \<Longrightarrow> nextAddr c' = nextAddr c \<Longrightarrow> store_step c c'"
    by (rule store_step_same)
  have hc: "case handleConnect parse now data c of Inl e \<Rightarrow> True | Inr c' \<Rightarrow> store_step c c'"
  proof (cases "handleConnect parse now data c")
    case (Inl e)
    then show ?thesis by simp
  next
    case (Inr c')
    then show ?thesis using handleConnect_store [OF Inr] by (simp add: same)
  qed
  have leaves: "store_step c (handleConnectedAck now c)"
    "store_step c (handleDisconnect parse data c)"
    "store_step c (sendPong c)" "store_step c c"
    by (simp_all add: same sendPong_def)
  note u = handleEvent_store [of c parse now data] handleEventWithAck_store [of c parse data]
    handleNumberedAck_store [of c parse now data]
  show ?thesis
  proof (cases "leading_digits data")
    case None
    then show ?thesis by (simp add: handleMessage_def leaves)
  next
    case (Some t)
    show ?thesis
    proof (cases "t = ''0''")
      case True
      then show ?thesis using Some hc by (simp add: handleMessage_def)
    next
      case False
      then show ?thesis using Some
        by (simp add: handleMessage_def leaves u del: set_simps)
    qed
  qed
qed

lemma getMessages_store:
  assumes "getMessages limit c = Inr (r, c')"
  shows "store_step c c' \<and> r = nextAddr c"
proof -
  from assms have "\<exists>v. alloc v c = (r, c')"
    by (simp add: getMessages_def split: jsval.splits if_splits) blast+
  then obtain v where "alloc v c = (r, c')" by blast
  then have "c' = c\<lparr>heap := (heap c)(nextAddr c := v), nextAddr := nextAddr c + 1\<rparr>"
    and "r = nextAddr c"
    by (auto simp add: alloc_def)
  then show ?thesis by (simp add: store_step_def)
qed

text \<open>
  Whatever happens to a client, its store changes in one of three ways: not at all,
  in the buffer only, or by one newly allocated object, which may become the buffer.
\<close>

lemma step_store: "store_step c (snd (step parse c i))"
proof -
  have same: "\<And>c'. heap c' = heap c \<Longrightarrow> messageHistory c' = messageHistory c
      \<Longrightarrow> nextAddr c' = nextAddr c \<Longrightarrow> store_step c c'"
    by (rule store_step_same)
  have self: "store_step c c" by (simp add: same)
  obtain now inp where i: "i = (now, inp)" by (cases i)
  show ?thesis
  proof (cases inp)
    case OnConnect
    then show ?thesis by (simp add: i same)
  next
    case (OnConnectFailed err)
    then show ?thesis by (simp add: i same on_connectFailed_def emit_error_def Let_def)
  next
    case (OnError err)
    then show ?thesis by (simp add: i same on_error_def emit_error_def Let_def)
  next
    case (CallOn ev)
    then show ?thesis by (simp add: i same addListener_def)
  next
    case OnClose
    then show ?thesis by (simp add: i same)
  next
    case (OnMessage m)
    show ?thesis
    proof (cases m)
      case (Utf8 data)
      show ?thesis
      proof (cases "handleMessage parse now data c")
        case (Inl e)
        then show ?thesis using i OnMessage Utf8 self by (simp add: on_message_def)
      next
        case (Inr c')
        then have "store_step c c'"
          using handleMessage_store [where parse = parse and now = now and data = data
                  and c = c] by simp
        then show ?thesis using i OnMessage Utf8 Inr self by (simp add: on_message_def)
      qed
    next
      case Binary
      then show ?thesis using i OnMessage self by (simp add: on_message_def)
    qed
  next
    case PingTimer
    then show ?thesis by (simp add: i same)
  next
    case CleanupTimer
    then show ?thesis by (simp add: i same cleanupStaleAcks_def)
  next
    case ReconnectTimer
    then show ?thesis by (simp add: i same connect_def)
  next
    case CallConnect
    then show ?thesis by (simp add: i same connect_def)
  next
    case CallDisconnect
    then show ?thesis by (simp add: i same)
  next
    case (CallSendMessage body)
    then show ?thesis by (simp add: i same sendMessage_def getNextAckId_def)
  next
    case (CallGetMessages limit)
    show ?thesis
    proof (cases "getMessages limit c")
      case (Inl e)
      then show ?thesis using i CallGetMessages self by simp
    next
      case (Inr rc)
      obtain r c' where rc: "rc = (r, c')" by (cases rc)
      show ?thesis
        using i CallGetMessages Inr rc getMessages_store [of limit c r c'] by simp
    qed
  qed
qed

lemma wf_store_new: "wf_store (PumpChatClient opts)"
  by (simp add: wf_store_def PumpChatClient_def)

lemma wf_store_run:
  assumes "wf_store c"
  shows "wf_store (run parse c inputs)"
  using assms
proof (induction inputs arbitrary: c)
  case Nil
  then show ?case by simp
next
  case (Cons i inputs)
  have "wf_store (snd (step parse c i))"
    by (rule store_step_wf [OF step_store Cons.prems])
  then show ?case using Cons.IH by simp
qed

lemma run_untouched:
  assumes "wf_store c" and "a < nextAddr c" and "a \<noteq> messageHistory c"
  shows "untouched a c (run parse c inputs)"
  using assms
proof (induction inputs arbitrary: c)
  case Nil
  then show ?case by (simp add: untouched_def)
next
  case (Cons i inputs)
  have u: "untouched a c (snd (step parse c i))"
    by (rule store_step_untouched [OF step_store Cons.prems])
  then have "untouched a (snd (step parse c i)) (run parse (snd (step parse c i)) inputs)"
    by (intro Cons.IH) (simp_all add: untouched_def)
  then show ?case using u by (simp add: untouched_def)
qed

lemma getMessages_array:
  assumes "buffer c = JArr xs"
  shows "getMessages lim c =
     Inr (alloc (JArr (if lim \<noteq> None \<and> lim \<noteq> Some 0 then slice_from (- the lim) xs else xs)) c)"
  using assms by (simp add: getMessages_def buffer_def)

lemma slice_from_recent:
  assumes "0 < limit" and "limit \<le> int (length xs)"
  shows "slice_from (- limit) xs = drop (length xs - nat limit) xs"
proof -
  have "nat (int (length xs) - limit) = length xs - nat limit"
    using assms by linarith
  then show ?thesis using assms by (simp add: slice_from_def max_def)
qed

text \<open>
  Claim C6, amended. When the buffer is an array and \<open>0 < limit \<le>\<close> its length,
  \<^verbatim>\<open>getMessages(limit)\<close> returns the most recent \<open>limit\<close> entries in order; with no limit,
  and with the limit 0, it returns the whole buffer. Whatever the limit, the result is
  a new array, not the live buffer, and no input that follows changes it.
\<close>

theorem getMessages_snapshot:
  assumes "wf_store c" and "buffer c = JArr xs"
    and "0 < limit" and "limit \<le> int (length xs)"
  shows "getMessages_value (Some limit) c = Inr (JArr (drop (length xs - nat limit) xs))
       \<and> getMessages_value None c = Inr (JArr xs)
       \<and> getMessages_value (Some 0) c = Inr (JArr xs)
       \<and> (\<exists>r c'. getMessages lim c = Inr (r, c') \<and> r \<noteq> messageHistory c'
             \<and> heap (run parse c' inputs) r = heap c' r)"
proof -
  have a: "getMessages_value (Some limit) c = Inr (JArr (drop (length xs - nat limit) xs))"
    using assms(3) slice_from_recent [OF assms(3,4)]
    by (simp add: getMessages_value_def getMessages_array [OF assms(2)] alloc_def)
  have b: "getMessages_value None c = Inr (JArr xs)"
    "getMessages_value (Some 0) c = Inr (JArr xs)"
    by (simp_all add: getMessages_value_def getMessages_array [OF assms(2)] alloc_def)
  obtain v where v: "getMessages lim c = Inr (alloc v c)"
    using getMessages_array [OF assms(2)] by blast
  define r where "r = nextAddr c"
  define c' where "c' = c\<lparr>heap := (heap c)(nextAddr c := v), nextAddr := nextAddr c + 1\<rparr>"
  have g: "getMessages lim c = Inr (r, c')" by (simp add: v alloc_def r_def c'_def)
  have w: "wf_store c'" "r < nextAddr c'" "r \<noteq> messageHistory c'"
    using assms(1) by (simp_all add: wf_store_def r_def c'_def)
  have "untouched r c' (run parse c' inputs)" by (rule run_untouched [OF w])
  then have "heap (run parse c' inputs) r = heap c' r" by (simp add: untouched_def)
  then show ?thesis using a b g w(3) by blast
qed

lemma example_two_fields:
  "wf_store example_two" "buffer example_two = JArr [msg ''m4'', msg ''m5'']"
  by code_simp+

theorem getMessages_snapshot_witness:
  \<open>wf_store example_two \<and> buffer example_two = JArr [msg ''m4'', msg ''m5'']
   \<and> (0::int) < 1 \<and> (1::int) \<le> int (length [msg ''m4'', msg ''m5''])
   \<and> getMessages_value (Some 1) example_two = Inr (JArr [msg ''m5''])
   \<and> getMessages_value None example_two = Inr (JArr [msg ''m4'', msg ''m5''])
   \<and> (\<exists>r c'. getMessages (Some 1) example_two = Inr (r, c') \<and> r \<noteq> messageHistory c'
         \<and> heap (run example_parse c'
                   [(7, OnMessage (Utf8 ''42["newMessage",{"id":"m4"}]'')),
                    (8, OnMessage (Utf8 ''43[{"messages":[{"id":"m1"}]}]''))]) r
             = heap c' r)\<close>
proof -
  have l: "(0::int) < 1" "(1::int) \<le> int (length [msg ''m4'', msg ''m5''])" by simp_all
  show ?thesis
    using getMessages_snapshot [OF example_two_fields l, of "Some 1" example_parse
            \<open>[(7, OnMessage (Utf8 ''42["newMessage",{"id":"m4"}]'')),
              (8, OnMessage (Utf8 ''43[{"messages":[{"id":"m1"}]}]''))]\<close>]
          example_two_fields
    by simp
qed

text \<open>
  The claim as stated covers the limit 0, which is at most the length of any buffer:
  the most recent 0 entries are none, but \<^verbatim>\<open>getMessages(0)\<close> returns the whole buffer.
\<close>

theorem getMessages_zero_counterexample:
  "buffer example_two = JArr [msg ''m4'', msg ''m5'']
   \<and> (0::int) \<le> int (length [msg ''m4'', msg ''m5''])
   \<and> getMessages_value (Some 0) example_two = Inr (JArr [msg ''m4'', msg ''m5''])
   \<and> getMessages_value (Some 0) example_two \<noteq> Inr (JArr (drop (length [msg ''m4'', msg ''m5''] - 0) [msg ''m4'', msg ''m5'']))"
  by code_simp

section \<open>Dispatch on the frame type\<close>

lemma leading_digits_43d:
  assumes "is_digit d" and "no_leading_digit p"
  shows "leading_digits (''43'' @ d # p) = Some (''43'' @ [d])"
proof -
  have "leading_digits ((''43'' @ [d]) @ p) = Some (''43'' @ [d])"
    by (rule leading_digits_prefix) (use assms in \<open>auto simp: is_digit_def\<close>)
  then show ?thesis by simp
qed

lemma leading_digits_lit:
  assumes "no_leading_digit p"
  shows "leading_digits (''0'' @ p) = Some ''0''" "leading_digits (''40'' @ p) = Some ''40''"
    "leading_digits (''41'' @ p) = Some ''41''" "leading_digits (''42'' @ p) = Some ''42''"
    "leading_digits (''43'' @ p) = Some ''43''" "leading_digits (''2'' @ p) = Some ''2''"
    "leading_digits (''3'' @ p) = Some ''3''"
  by (rule leading_digits_prefix; use assms in \<open>simp add: is_digit_def\<close>)+

lemma dispatch_lit:
  assumes "no_leading_digit p"
  shows "handleMessage parse now (''0'' @ p) c = handleConnect parse now (''0'' @ p) c"
    "handleMessage parse now (''40'' @ p) c = Inr (handleConnectedAck now c)"
    "handleMessage parse now (''41'' @ p) c = Inr (handleDisconnect parse (''41'' @ p) c)"
    "handleMessage parse now (''42'' @ p) c = Inr (handleEvent parse now (''42'' @ p) c)"
    "handleMessage parse now (''43'' @ p) c = Inr (handleEventWithAck parse (''43'' @ p) c)"
    "handleMessage parse now (''2'' @ p) c = Inr (sendPong c)"
    "handleMessage parse now (''3'' @ p) c = Inr c"
  using leading_digits_lit [OF assms] by (simp_all add: handleMessage_def)

lemma dispatch_43d:
  assumes "is_digit d" and "no_leading_digit p"
  shows "handleMessage parse now (''43'' @ d # p) c
           = Inr (handleNumberedAck parse now (''43'' @ d # p) c)"
proof -
  have m: "''43'' @ [d] \<in> set [''430'', ''431'', ''432'', ''433'', ''434'',
                                  ''435'', ''436'', ''437'', ''438'', ''439'']"
    using assms(1) unfolding is_digit_def by (elim disjE | simp)+
  have n: "''43'' @ [d] \<noteq> ''0''" "''43'' @ [d] \<noteq> ''40''" "''43'' @ [d] \<noteq> ''41''"
    "''43'' @ [d] \<noteq> ''42''" "''43'' @ [d] \<noteq> ''43''"
    by simp_all
  show ?thesis
    unfolding handleMessage_def leading_digits_43d [OF assms] option.case
    using m n by (simp only: if_False if_True)
qed


lemma delete_absent:
  assumes "map_of m k = None"
  shows "AList.delete k m = m"
  using assms by (induction m) (auto simp: AList.delete_eq)

lemma resolve_eq:
  "(case parseInt [d] of None \<Rightarrow> c
    | Some ack \<Rightarrow> if (case parseInt [d] of None \<Rightarrow> None | Some ack \<Rightarrow> map_of (pendingAcks c) ack) \<noteq> None
                  then c\<lparr>pendingAcks := AList.delete ack (pendingAcks c)\<rparr> else c)
   = c\<lparr>pendingAcks := AList.delete (digit_val d) (pendingAcks c)\<rparr>"
proof -
  have pi: "parseInt [d] = Some (digit_val d)" by (simp add: parseInt_def)
  show ?thesis
  proof (cases "map_of (pendingAcks c) (digit_val d)")
    case None
    then show ?thesis unfolding pi by (simp add: delete_absent)
  next
    case (Some pa)
    then show ?thesis unfolding pi by (simp)
  qed
qed

lemma handleNumberedAck_malformed:
  assumes "is_digit d" and "no_leading_digit p" and "parse p = None"
  shows "handleNumberedAck parse now (''43'' @ d # p) c =
     console_error ''Error parsing numbered acknowledgment:''
       (c\<lparr>pendingAcks := AList.delete (digit_val d) (pendingAcks c)\<rparr>)"
proof -
  have dr: "drop 2 (''43'' @ [d]) = [d]" "drop 3 (''43'' @ d # p) = p" by simp_all
  show ?thesis
    unfolding handleNumberedAck_def leading_digits_43d [OF assms(1,2)] Let_def option.case dr
      resolve_eq assms(3)
    by simp
qed

lemma handleNumberedAck_history:
  assumes "is_digit d" and "no_leading_digit p" and "parse p = Some ackData"
    and "elem0 ackData = Inr first"
    and "map_of (pendingAcks c) (digit_val d) = Some pa" and "event pa = ''getMessageHistory''"
  shows "handleNumberedAck parse now (''43'' @ d # p) c =
     (if isArray first
      then assignMessageHistory first (c\<lparr>pendingAcks := AList.delete (digit_val d) (pendingAcks c)\<rparr>)
      else c\<lparr>pendingAcks := AList.delete (digit_val d) (pendingAcks c)\<rparr>)"
proof -
  have dr: "drop 2 (''43'' @ [d]) = [d]" "drop 3 (''43'' @ d # p) = p" by simp_all
  have pi: "parseInt [d] = Some (digit_val d)" by (simp add: parseInt_def)
  have pe: "map_option event (case parseInt [d] of None \<Rightarrow> None
                               | Some ack \<Rightarrow> map_of (pendingAcks c) ack)
            = Some ''getMessageHistory''"
    unfolding pi using assms(5,6) by (simp)
  show ?thesis
    unfolding handleNumberedAck_def leading_digits_43d [OF assms(1,2)] Let_def option.case dr
      resolve_eq assms(3) pe assms(4)
    by simp
qed


section \<open>Malformed payloads\<close>

lemma disconnect_reason_malformed:
  assumes "parse p = None"
  shows "disconnect_reason parse (''41'' @ p) = JStr ''Server initiated disconnect''"
  using assms by (simp add: disconnect_reason_def Let_def)

text \<open>
  The connect-info frame is the one whose handler has no \<^verbatim>\<open>try\<close> block: a malformed
  payload after the prefix \<^verbatim>\<open>0\<close> makes \<^verbatim>\<open>JSON.parse\<close> throw out of \<^verbatim>\<open>handleMessage\<close>.
\<close>

lemma connect_info_malformed_raises:
  assumes "parse p = None" and "no_leading_digit p"
  shows "handleMessage parse now (''0'' @ p) c = Inl SyntaxError"
  using assms(1) by (simp only: dispatch_lit [OF assms(2)]) (simp add: handleConnect_def)

lemma connect_info_malformed_example:
  "raised example_parse example_open [(9, OnMessage (Utf8 ''0{''))] = [SyntaxError]"
  by code_simp

text \<open>
  Claim C7, amended. Let the payload after the prefix be malformed. After \<^verbatim>\<open>42\<close> and
  \<^verbatim>\<open>43\<close> the frame is dropped: nothing is thrown, and the client is as before except
  for one line on \<^verbatim>\<open>console.error\<close>. After \<^verbatim>\<open>43\<close> and a digit the same holds, except
  that the pending entry of that digit is gone. After \<^verbatim>\<open>41\<close> the frame is handled as
  the bare frame \<^verbatim>\<open>41\<close>, a disconnect with the default reason. After \<^verbatim>\<open>40\<close>, \<^verbatim>\<open>2\<close>
  and \<^verbatim>\<open>3\<close> the payload is never parsed and the frame is handled as usual. Nothing is
  said here of the prefix \<^verbatim>\<open>0\<close>.
\<close>

theorem malformed_payload:
  assumes "parse p = None" and "no_leading_digit p" and "is_digit d"
  shows "handleMessage parse now (''42'' @ p) c = Inr (console_error ''Error parsing event:'' c)
       \<and> handleMessage parse now (''43'' @ p) c
           = Inr (console_error ''Error parsing acknowledgment:'' c)
       \<and> handleMessage parse now (''43'' @ d # p) c
           = Inr (console_error ''Error parsing numbered acknowledgment:''
                    (c\<lparr>pendingAcks := AList.delete (digit_val d) (pendingAcks c)\<rparr>))
       \<and> handleMessage parse now (''41'' @ p) c = handleMessage parse now ''41'' c
       \<and> handleMessage parse now (''40'' @ p) c = handleMessage parse now ''40'' c
       \<and> handleMessage parse now (''2'' @ p) c = Inr (sendPong c)
       \<and> handleMessage parse now (''3'' @ p) c = Inr c"
proof -
  have e: "no_leading_digit []" by (simp add: no_leading_digit_def)
  have a: "handleMessage parse now (''42'' @ p) c = Inr (console_error ''Error parsing event:'' c)"
    using assms(1) by (simp only: dispatch_lit [OF assms(2)]) (simp add: handleEvent_def)
  have b: "handleMessage parse now (''43'' @ p) c
           = Inr (console_error ''Error parsing acknowledgment:'' c)"
    using assms(1) by (simp only: dispatch_lit [OF assms(2)]) (simp add: handleEventWithAck_def)
  have n: "handleMessage parse now (''43'' @ d # p) c
           = Inr (console_error ''Error parsing numbered acknowledgment:''
                    (c\<lparr>pendingAcks := AList.delete (digit_val d) (pendingAcks c)\<rparr>))"
    by (simp only: dispatch_43d [OF assms(3,2)]
          handleNumberedAck_malformed [where parse = parse, OF assms(3,2,1)])
  have d1: "handleMessage parse now (''41'' @ p) c = Inr (handleDisconnect parse (''41'' @ p) c)"
    by (rule dispatch_lit [OF assms(2)])
  have d2: "handleMessage parse now ''41'' c = Inr (handleDisconnect parse ''41'' c)"
    using dispatch_lit(3) [OF e, of parse now c] by simp
  have d3: "handleDisconnect parse (''41'' @ p) c = handleDisconnect parse ''41'' c"
    using disconnect_reason_malformed [where parse = parse, OF assms(1)]
    by (simp add: handleDisconnect_def) (simp add: disconnect_reason_def)
  have h1: "handleMessage parse now (''40'' @ p) c = Inr (handleConnectedAck now c)"
    by (rule dispatch_lit [OF assms(2)])
  have h2: "handleMessage parse now ''40'' c = Inr (handleConnectedAck now c)"
    using dispatch_lit(2) [OF e, of parse now c] by simp
  have p2: "handleMessage parse now (''2'' @ p) c = Inr (sendPong c)"
    by (rule dispatch_lit [OF assms(2)])
  have p3: "handleMessage parse now (''3'' @ p) c = Inr c"
    by (rule dispatch_lit [OF assms(2)])
  show ?thesis using a b n d1 d2 d3 h1 h2 p2 p3 by simp
qed

lemma example_joined_fields:
  "pendingAcks example_joined = [(1, \<lparr>event = ''getMessageHistory'', timestamp = 3\<rparr>)]"
  "buffer example_joined = JArr []" "isActive example_joined"
  "events (trace example_joined) = [''connected'']" "wf_store example_joined"
  by code_simp+

theorem malformed_payload_witness:
  "example_parse ''{'' = None \<and> no_leading_digit ''{'' \<and> is_digit CHR ''1''
   \<and> handleMessage example_parse 9 ''42{'' example_joined
       = Inr (console_error ''Error parsing event:'' example_joined)
   \<and> handleMessage example_parse 9 ''43{'' example_joined
       = Inr (console_error ''Error parsing acknowledgment:'' example_joined)
   \<and> handleMessage example_parse 9 ''431{'' example_joined
       = Inr (console_error ''Error parsing numbered acknowledgment:''
                (example_joined\<lparr>pendingAcks := []\<rparr>))"
proof -
  have h: "example_parse ''{'' = None" "no_leading_digit ''{''" "is_digit CHR ''1''"
    by (simp_all add: example_parse_def no_leading_digit_def is_digit_def)
  show ?thesis
    using malformed_payload [where parse = example_parse and p = "''{''" and d = "CHR ''1''"
            and now = 9 and c = example_joined] h
    by (simp add: example_joined_fields AList.delete_eq)
qed

text \<open>
  The claim as stated has every such frame dropped without a change of state. The
  frame \<^verbatim>\<open>41{\<close> is not dropped: the client is disconnected by it, and listeners are
  told. The frame \<^verbatim>\<open>431{\<close> removes the pending entry 1, the frame \<^verbatim>\<open>40{\<close> starts the
  join, and the frame \<^verbatim>\<open>2{\<close> is answered with a pong.
\<close>

theorem malformed_frames_counterexample:
  "example_parse ''{'' = None
   \<and> isActive example_open
   \<and> events (trace example_open) = [''connected'']
   \<and> raised example_parse example_open [(9, OnMessage (Utf8 ''41{''))] = []
   \<and> \<not> isActive (run example_parse example_open [(9, OnMessage (Utf8 ''41{''))])
   \<and> events (trace (run example_parse example_open [(9, OnMessage (Utf8 ''41{''))]))
       = [''connected'', ''disconnected'', ''tryReconnect'']
   \<and> reconnect_delays (trace (run example_parse example_open [(9, OnMessage (Utf8 ''41{''))]))
       = [2000]
   \<and> pendingAcks example_joined = [(1, \<lparr>event = ''getMessageHistory'', timestamp = 3\<rparr>)]
   \<and> pendingAcks (run example_parse example_joined [(9, OnMessage (Utf8 ''431{''))]) = []
   \<and> pendingAcks example_open = []
   \<and> pendingAcks (run example_parse example_open [(9, OnMessage (Utf8 ''40{''))])
       = [(0, \<lparr>event = ''joinRoom'', timestamp = 9\<rparr>)]
   \<and> sent (trace example_open) = []
   \<and> sent (trace (run example_parse example_open [(9, OnMessage (Utf8 ''2{''))])) = [''3'']"
  by code_simp

section \<open>History responses\<close>

lemma handleEventWithAck_array:
  assumes "parse p = Some ackData" and "elem0 ackData = Inr first" and "isArray first"
  shows "handleEventWithAck parse (''43'' @ p) c = assignMessageHistory first c"
proof -
  obtain xs where first: "first = JArr xs" using assms(3) by (cases first) simp_all
  show ?thesis using assms(1,2) by (simp add: handleEventWithAck_def first)
qed

lemma handleEventWithAck_messages:
  assumes "parse q = Some ackData" and "elem0 ackData = Inr (JObj kvs)"
    and "map_of kvs ''messages'' = Some (JArr ms)"
  shows "handleEventWithAck parse (''43'' @ q) c = assignMessageHistory (JArr ms) c"
  using assms by (simp add: handleEventWithAck_def)

text \<open>
  Claim C9, amended. A correlated acknowledgment \<^verbatim>\<open>43\<close>\<open>d\<close> that resolves to a
  \<^verbatim>\<open>getMessageHistory\<close> request makes the first element of its payload the buffer and
  emits \<^verbatim>\<open>messageHistory\<close> exactly when that element is an array; otherwise it only
  removes the pending entry. A generic acknowledgment \<^verbatim>\<open>43\<close> does so when the first
  element of its payload is an array, and when it is an object whose \<^verbatim>\<open>messages\<close> field
  is an array, which then becomes the buffer. Becoming the buffer leaves \<^verbatim>\<open>isActive()\<close>
  as it was.
\<close>

theorem history_response_shapes:
  assumes "is_digit d"
    and "map_of (pendingAcks c) (digit_val d) = Some pa" and "event pa = ''getMessageHistory''"
    and "no_leading_digit p" and "parse p = Some ackData" and "elem0 ackData = Inr first"
    and "no_leading_digit q" and "parse q = Some ackData'" and "elem0 ackData' = Inr (JObj kvs)"
    and "map_of kvs ''messages'' = Some (JArr ms)"
  shows "handleMessage parse now (''43'' @ d # p) c
           = Inr (if isArray first
                  then assignMessageHistory first
                         (c\<lparr>pendingAcks := AList.delete (digit_val d) (pendingAcks c)\<rparr>)
                  else c\<lparr>pendingAcks := AList.delete (digit_val d) (pendingAcks c)\<rparr>)
       \<and> (isArray first \<longrightarrow>
             handleMessage parse now (''43'' @ p) c = Inr (assignMessageHistory first c))
       \<and> handleMessage parse now (''43'' @ q) c = Inr (assignMessageHistory (JArr ms) c)
       \<and> buffer (assignMessageHistory v c) = v
       \<and> emitted ''messageHistory'' (trace (assignMessageHistory v c))
           = emitted ''messageHistory'' (trace c) @ [[v]]
       \<and> isActive (assignMessageHistory v c) = isActive c"
proof -
  have a: "handleMessage parse now (''43'' @ d # p) c
           = Inr (if isArray first
                  then assignMessageHistory first
                         (c\<lparr>pendingAcks := AList.delete (digit_val d) (pendingAcks c)\<rparr>)
                  else c\<lparr>pendingAcks := AList.delete (digit_val d) (pendingAcks c)\<rparr>)"
    by (simp only: dispatch_43d [OF assms(1,4)]
          handleNumberedAck_history [where parse = parse, OF assms(1,4,5,6,2,3)])
  have b: "isArray first \<Longrightarrow>
             handleMessage parse now (''43'' @ p) c = Inr (assignMessageHistory first c)"
    by (simp only: dispatch_lit [OF assms(4)]
          handleEventWithAck_array [where parse = parse, OF assms(5,6)])
  have g: "handleMessage parse now (''43'' @ q) c = Inr (assignMessageHistory (JArr ms) c)"
    by (simp only: dispatch_lit [OF assms(7)]
          handleEventWithAck_messages [where parse = parse, OF assms(8,9,10)])
  show ?thesis using a b g by (simp add: isActive_def)
qed

theorem history_response_shapes_witness:
  \<open>is_digit CHR ''1''
   \<and> map_of (pendingAcks example_joined) (digit_val CHR ''1'')
       = Some \<lparr>event = ''getMessageHistory'', timestamp = 3\<rparr>
   \<and> no_leading_digit ''[[{"id":"m1"}]]''
   \<and> example_parse ''[[{"id":"m1"}]]'' = Some (JArr [JArr [msg ''m1'']])
   \<and> elem0 (JArr [JArr [msg ''m1'']]) = Inr (JArr [msg ''m1''])
   \<and> isArray (JArr [msg ''m1''])
   \<and> no_leading_digit ''[{"messages":[{"id":"m1"}]}]''
   \<and> example_parse ''[{"messages":[{"id":"m1"}]}]''
       = Some (JArr [JObj [(''messages'', JArr [msg ''m1''])]])
   \<and> elem0 (JArr [JObj [(''messages'', JArr [msg ''m1''])]])
       = Inr (JObj [(''messages'', JArr [msg ''m1''])])
   \<and> map_of [(''messages'', JArr [msg ''m1''])] ''messages'' = Some (JArr [msg ''m1''])
   \<and> handleMessage example_parse 4 ''431[[{"id":"m1"}]]'' example_joined
       = Inr (assignMessageHistory (JArr [msg ''m1'']) (example_joined\<lparr>pendingAcks := []\<rparr>))
   \<and> handleMessage example_parse 4 ''43[[{"id":"m1"}]]'' example_joined
       = Inr (assignMessageHistory (JArr [msg ''m1'']) example_joined)
   \<and> handleMessage example_parse 4 ''43[{"messages":[{"id":"m1"}]}]'' example_joined
       = Inr (assignMessageHistory (JArr [msg ''m1'']) example_joined)\<close>
proof -
  have h: \<open>is_digit CHR ''1''\<close>
    \<open>map_of (pendingAcks example_joined) (digit_val CHR ''1'')
       = Some \<lparr>event = ''getMessageHistory'', timestamp = 3\<rparr>\<close>
    \<open>event \<lparr>event = ''getMessageHistory'', timestamp = 3\<rparr> = ''getMessageHistory''\<close>
    \<open>no_leading_digit ''[[{"id":"m1"}]]''\<close>
    \<open>example_parse ''[[{"id":"m1"}]]'' = Some (JArr [JArr [msg ''m1'']])\<close>
    \<open>elem0 (JArr [JArr [msg ''m1'']]) = Inr (JArr [msg ''m1''])\<close>
    \<open>no_leading_digit ''[{"messages":[{"id":"m1"}]}]''\<close>
    \<open>example_parse ''[{"messages":[{"id":"m1"}]}]''
       = Some (JArr [JObj [(''messages'', JArr [msg ''m1''])]])\<close>
    \<open>elem0 (JArr [JObj [(''messages'', JArr [msg ''m1''])]])
       = Inr (JObj [(''messages'', JArr [msg ''m1''])])\<close>
    \<open>map_of [(''messages'', JArr [msg ''m1''])] ''messages'' = Some (JArr [msg ''m1''])\<close>
    by (simp_all add: is_digit_def example_joined_fields no_leading_digit_def example_parse_def)
  show ?thesis
    using history_response_shapes [where parse = example_parse, OF h, of 4 JNull] h
    by (simp add: example_joined_fields AList.delete_eq)
qed

text \<open>
  The claim as stated has the correlated acknowledgment accept an object with a
  \<^verbatim>\<open>messages\<close> array. It does not: the buffer stays empty and no event is emitted. A
  payload that is itself the array of messages is not accepted either, and on the
  generic acknowledgment it makes the first message the buffer. The client is active
  before any history has arrived.
\<close>

theorem history_shapes_counterexample:
  \<open>pendingAcks example_joined = [(1, \<lparr>event = ''getMessageHistory'', timestamp = 3\<rparr>)]
   \<and> isActive example_joined
   \<and> emitted ''messageHistory'' (trace example_joined) = []
   \<and> example_parse ''[{"messages":[{"id":"m1"}]}]''
       = Some (JArr [JObj [(''messages'', JArr [msg ''m1''])]])
   \<and> emitted ''messageHistory'' (trace (run example_parse example_joined
         [(4, OnMessage (Utf8 ''431[{"messages":[{"id":"m1"}]}]''))])) = []
   \<and> buffer (run example_parse example_joined
         [(4, OnMessage (Utf8 ''431[{"messages":[{"id":"m1"}]}]''))]) = JArr []
   \<and> example_parse ''[{"id":"m1"},{"id":"m2"}]'' = Some (JArr [msg ''m1'', msg ''m2''])
   \<and> emitted ''messageHistory'' (trace (run example_parse example_joined
         [(4, OnMessage (Utf8 ''431[{"id":"m1"},{"id":"m2"}]''))])) = []
   \<and> buffer (run example_parse example_joined
         [(4, OnMessage (Utf8 ''431[{"id":"m1"},{"id":"m2"}]''))]) = JArr []
   \<and> buffer (run example_parse example_joined
         [(4, OnMessage (Utf8 ''43[{"id":"m1"},{"id":"m2"}]''))]) = msg ''m1''\<close>
  by code_simp

section \<open>One pending entry per key\<close>

lemma sweep_distinct:
  assumes "distinct (map fst m)"
  shows "distinct (map fst (sweep now entries m))"
  using assms
proof (induction entries arbitrary: m)
  case Nil
  then show ?case by simp
next
  case (Cons e entries)
  obtain k p where e: "e = (k, p)" by (cases e)
  show ?case using Cons e by (simp add: distinct_delete)
qed

lemma handleNewMessage_pending:
  assumes "handleNewMessage m c = Inr c'"
  shows "pendingAcks c' = pendingAcks c"
  using assms by (auto simp: handleNewMessage_def Let_def split: jsval.splits)

lemma handleEvent_pending:
  assumes "distinct (map fst (pendingAcks c))"
  shows "distinct (map fst (pendingAcks (handleEvent parse now data c)))"
proof (cases "parse (drop 2 data)")
  case None
  then show ?thesis using assms by (simp add: handleEvent_def)
next
  case (Some eventData)
  show ?thesis
  proof (cases "destructure2 eventData")
    case (Inl e)
    then show ?thesis using Some assms by (simp add: handleEvent_def)
  next
    case (Inr np)
    obtain eventName payload where np: "np = (eventName, payload)" by (cases np)
    show ?thesis
    proof (cases "handleNewMessage payload c")
      case (Inl e)
      then show ?thesis using Some Inr np assms
        by (simp add: handleEvent_def distinct_update)
    next
      case r: (Inr c')
      then show ?thesis using Some Inr np assms handleNewMessage_pending [OF r]
        by (simp add: handleEvent_def distinct_update)
    qed
  qed
qed

lemma handleEventWithAck_pending [simp]:
  "pendingAcks (handleEventWithAck parse data c) = pendingAcks c"
  by (simp add: handleEventWithAck_def split: option.split sum.split jsval.split)

lemma handleNumberedAck_pending:
  assumes "distinct (map fst (pendingAcks c))"
  shows "distinct (map fst (pendingAcks (handleNumberedAck parse now data c)))"
  using assms
  by (simp add: handleNumberedAck_def Let_def distinct_update distinct_delete
        split: option.split sum.split)

lemma handleMessage_pending:
  assumes "distinct (map fst (pendingAcks c))"
  shows "case handleMessage parse now data c of
           Inl e \<Rightarrow> True | Inr c' \<Rightarrow> distinct (map fst (pendingAcks c'))"
proof -
  have hc: "case handleConnect parse now data c of
              Inl e \<Rightarrow> True | Inr c' \<Rightarrow> distinct (map fst (pendingAcks c'))"
  proof (cases "handleConnect parse now data c")
    case (Inl e)
    then show ?thesis by simp
  next
    case (Inr c')
    then show ?thesis using handleConnect_store [OF Inr] assms by simp
  qed
  have leaves: "distinct (map fst (pendingAcks (handleConnectedAck now c)))"
    "distinct (map fst (pendingAcks (handleDisconnect parse data c)))"
    "distinct (map fst (pendingAcks (sendPong c)))"
    using assms by (simp_all add: sendPong_def distinct_update)
  note u = handleEvent_pending [OF assms, of parse now data]
    handleNumberedAck_pending [OF assms, of parse now data]
  show ?thesis
  proof (cases "leading_digits data")
    case None
    then show ?thesis using assms by (simp add: handleMessage_def)
  next
    case (Some t)
    show ?thesis
    proof (cases "t = ''0''")
      case True
      then show ?thesis using Some hc by (simp add: handleMessage_def)
    next
      case False
      then show ?thesis using Some assms
        by (simp add: handleMessage_def leaves u distinct_update sendPong_def del: set_simps)
    qed
  qed
qed

lemma getMessages_pending:
  assumes "getMessages limit c = Inr (r, c')"
  shows "pendingAcks c' = pendingAcks c"
proof -
  from assms have "\<exists>v. alloc v c = (r, c')"
    by (simp add: getMessages_def split: jsval.splits if_splits) blast+
  then show ?thesis by (auto simp: alloc_def)
qed

text \<open>
  The table of pending acknowledgments of a new client has one entry per key, and
  nothing that happens to the client changes that: this is the hypothesis of the
  sweep.
\<close>

lemma step_pending:
  assumes "distinct (map fst (pendingAcks c))"
  shows "distinct (map fst (pendingAcks (snd (step parse c i))))"
proof -
  obtain now inp where i: "i = (now, inp)" by (cases i)
  show ?thesis
  proof (cases inp)
    case OnConnect
    then show ?thesis using assms by (simp add: i)
  next
    case (OnConnectFailed err)
    then show ?thesis using assms by (simp add: i on_connectFailed_def emit_error_def Let_def)
  next
    case (OnError err)
    then show ?thesis using assms by (simp add: i on_error_def emit_error_def Let_def)
  next
    case (CallOn ev)
    then show ?thesis using assms by (simp add: i addListener_def)
  next
    case OnClose
    then show ?thesis using assms by (simp add: i)
  next
    case (OnMessage m)
    show ?thesis
    proof (cases m)
      case (Utf8 data)
      show ?thesis
      proof (cases "handleMessage parse now data c")
        case (Inl e)
        then show ?thesis using i OnMessage Utf8 assms by (simp add: on_message_def)
      next
        case (Inr c')
        then have "distinct (map fst (pendingAcks c'))"
          using handleMessage_pending [OF assms, where parse = parse and now = now
                  and data = data] by simp
        then show ?thesis using i OnMessage Utf8 Inr assms by (simp add: on_message_def)
      qed
    next
      case Binary
      then show ?thesis using i OnMessage assms by (simp add: on_message_def)
    qed
  next
    case PingTimer
    then show ?thesis using assms by (simp add: i)
  next
    case CleanupTimer
    then show ?thesis using assms by (simp add: i cleanupStaleAcks_def sweep_distinct)
  next
    case ReconnectTimer
    then show ?thesis using assms by (simp add: i connect_def)
  next
    case CallConnect
    then show ?thesis using assms by (simp add: i connect_def)
  next
    case CallDisconnect
    then show ?thesis using assms by (simp add: i)
  next
    case (CallSendMessage body)
    then show ?thesis using assms
      by (simp add: i sendMessage_def getNextAckId_def distinct_update)
  next
    case (CallGetMessages limit)
    show ?thesis
    proof (cases "getMessages limit c")
      case (Inl e)
      then show ?thesis using i CallGetMessages assms by simp
    next
      case (Inr rc)
      obtain r c' where rc: "rc = (r, c')" by (cases rc)
      show ?thesis
        using i CallGetMessages Inr rc assms getMessages_pending [of limit c r c'] by simp
    qed
  qed
qed

lemma run_pending:
  "distinct (map fst (pendingAcks (run parse (PumpChatClient opts) inputs)))"
proof -
  have "distinct (map fst (pendingAcks c))
        \<Longrightarrow> distinct (map fst (pendingAcks (run parse c inputs)))" for c
  proof (induction inputs arbitrary: c)
    case Nil
    then show ?case by simp
  next
    case (Cons i inputs)
    then show ?case using step_pending [of c parse i] by simp
  qed
  then show ?thesis by (simp add: PumpChatClient_fields)
qed

section \<open>The reconnect policy at work\<close>

lemma listeners_kept [simp]:
  "listeners (effect e c) = listeners c" "listeners (emit ev args c) = listeners c"
  "listeners (console_error s c) = listeners c" "listeners (stopPing c) = listeners c"
  by (simp_all add: effect_def emit_def console_error_def stopPing_def split: option.split)

lemma reconnect_delays_Cons [simp]:
  "reconnect_delays (Emit ev args # es) = reconnect_delays es"
  "reconnect_delays (SendUTF d # es) = reconnect_delays es"
  "reconnect_delays (ConsoleError s # es) = reconnect_delays es"
  "reconnect_delays (SetInterval cb v # es) = reconnect_delays es"
  "reconnect_delays (ClearInterval t # es) = reconnect_delays es"
  "reconnect_delays (SetTimeout Reconnect n # es) = n # reconnect_delays es"
  "reconnect_delays (ConnectionClose # es) = reconnect_delays es"
  "reconnect_delays (WebSocketConnect # es) = reconnect_delays es"
  by (simp_all add: reconnect_delays_def)

lemma reconnect_delays_stopPing [simp]:
  "reconnect_delays (trace (stopPing c)) = reconnect_delays (trace c)"
  by (simp add: stopPing_def split: option.split)


text \<open>Without a listener for \<^verbatim>\<open>error\<close>, a failed connection attempt throws the error
  and the reconnect policy is not reached.\<close>

lemma connectFailed_unheard:
  assumes "''error'' \<notin> set (listeners c)"
  shows "step parse c (now, OnConnectFailed err)
           = (Some (Thrown err), console_error ''Connection Failed:'' c)"
  using assms by (simp add: on_connectFailed_def emit_error_def Let_def)







section \<open>Snapshots of any array\<close>

text \<open>The snapshot needs no limit within the length: whatever the limit, and also
  when the buffer is empty, the array handed out is new and stays as it is.\<close>

lemma getMessages_snapshot_any:
  assumes "wf_store c" and "buffer c = JArr xs"
  shows "\<exists>r c'. getMessages lim c = Inr (r, c') \<and> r \<noteq> messageHistory c'
           \<and> heap (run parse c' inputs) r = heap c' r"
proof -
  obtain v where v: "getMessages lim c = Inr (alloc v c)"
    using getMessages_array [OF assms(2)] by blast
  define r where "r = nextAddr c"
  define c' where "c' = c\<lparr>heap := (heap c)(nextAddr c := v), nextAddr := nextAddr c + 1\<rparr>"
  have g: "getMessages lim c = Inr (r, c')" by (simp add: v alloc_def r_def c'_def)
  have w: "wf_store c'" "r < nextAddr c'" "r \<noteq> messageHistory c'"
    using assms(1) by (simp_all add: wf_store_def r_def c'_def)
  have "untouched r c' (run parse c' inputs)" by (rule run_untouched [OF w])
  then have "heap (run parse c' inputs) r = heap c' r" by (simp add: untouched_def)
  then show ?thesis using g w(3) by blast
qed

end
